theory Spec2Isabelle
  imports Complex_Main "HOL-Library.Word" "HOL-Library.Multiset"
begin

section \<open>Go strings: bytes, runes and the string functions the memory package calls\<close>

text \<open>
  A Go string is a sequence of bytes; it is modelled as an Isabelle \<open>string\<close> (a list of
  8-bit characters), so \<open>len(text)\<close> is \<open>length text\<close>. A \<open>range\<close> loop over a string,
  package \<open>regexp\<close> and the rune functions of package \<open>strings\<close> read the bytes as UTF-8,
  one rune (a code point, here a \<open>nat\<close>) at a time; a byte that does not start a well-formed
  sequence is read as the rune U+FFFD of width 1.
\<close>

type_synonym rune = nat

definition RuneError :: rune where
  "RuneError = 0xFFFD"

definition cont :: "nat \<Rightarrow> bool" where
  "cont b \<longleftrightarrow> 0x80 \<le> b \<and> b \<le> 0xBF"

text \<open>\<open>utf8.DecodeRuneInString\<close>: the rune at the head of the bytes and its width.\<close>

fun DecodeRune :: "nat list \<Rightarrow> rune \<times> nat" where
  "DecodeRune [] = (RuneError, 0)"
| "DecodeRune (b0 # bs) =
     (if b0 < 0x80 then (b0, 1)
      else if 0xC2 \<le> b0 \<and> b0 \<le> 0xDF then
        (case bs of
           b1 # _ \<Rightarrow> if cont b1 then ((b0 - 0xC0) * 64 + (b1 - 0x80), 2) else (RuneError, 1)
         | _ \<Rightarrow> (RuneError, 1))
      else if 0xE0 \<le> b0 \<and> b0 \<le> 0xEF then
        (case bs of
           b1 # b2 # _ \<Rightarrow>
             if (if b0 = 0xE0 then 0xA0 \<le> b1 \<and> b1 \<le> 0xBF
                 else if b0 = 0xED then 0x80 \<le> b1 \<and> b1 \<le> 0x9F
                 else cont b1) \<and> cont b2
             then ((b0 - 0xE0) * 4096 + (b1 - 0x80) * 64 + (b2 - 0x80), 3)
             else (RuneError, 1)
         | _ \<Rightarrow> (RuneError, 1))
      else if 0xF0 \<le> b0 \<and> b0 \<le> 0xF4 then
        (case bs of
           b1 # b2 # b3 # _ \<Rightarrow>
             if (if b0 = 0xF0 then 0x90 \<le> b1 \<and> b1 \<le> 0xBF
                 else if b0 = 0xF4 then 0x80 \<le> b1 \<and> b1 \<le> 0x8F
                 else cont b1) \<and> cont b2 \<and> cont b3
             then ((b0 - 0xF0) * 262144 + (b1 - 0x80) * 4096 + (b2 - 0x80) * 64 + (b3 - 0x80), 4)
             else (RuneError, 1)
         | _ \<Rightarrow> (RuneError, 1))
      else (RuneError, 1))"

text \<open>
  The runes of a byte sequence, each with the bytes it was read from: what a
  \<open>for _, r := range text\<close> loop visits.
\<close>

fun chunks :: "nat list \<Rightarrow> (rune \<times> nat list) list" where
  "chunks [] = []"
| "chunks (b0 # bs) =
     (let (r, n) = DecodeRune (b0 # bs)
      in (r, b0 # take (n - 1) bs) # chunks (drop (n - 1) bs))"

definition bytes :: "string \<Rightarrow> nat list" where
  "bytes s = map of_char s"

definition unbytes :: "nat list \<Rightarrow> string" where
  "unbytes bs = map char_of bs"

definition runes :: "string \<Rightarrow> rune list" where
  "runes s = map fst (chunks (bytes s))"

text \<open>\<open>utf8.RuneCountInString\<close>: the length of a text in characters.\<close>

definition RuneCount :: "string \<Rightarrow> nat" where
  "RuneCount s = length (runes s)"

text \<open>\<open>utf8.AppendRune\<close>: the UTF-8 bytes of a rune (surrogates and runes past U+10FFFF are
  written as U+FFFD).\<close>

definition EncodeRune :: "rune \<Rightarrow> nat list" where
  "EncodeRune r =
     (if r < 0x80 then [r]
      else if r < 0x800 then [0xC0 + r div 64, 0x80 + r mod 64]
      else if (0xD800 \<le> r \<and> r \<le> 0xDFFF) \<or> 0x10FFFF < r then [0xEF, 0xBF, 0xBD]
      else if r < 0x10000 then [0xE0 + r div 4096, 0x80 + (r div 64) mod 64, 0x80 + r mod 64]
      else [0xF0 + r div 262144, 0x80 + (r div 4096) mod 64, 0x80 + (r div 64) mod 64,
            0x80 + r mod 64])"

text \<open>
  \<open>unicode.ToLower\<close>. The table is the Unicode standard's and belongs to Go's library; it is
  written out here for ASCII, the Latin-1 Supplement, Latin Extended-A and the three letterlike
  symbols U+2126, U+212A and U+212B. Cased letters of other scripts are left unchanged by
  this model; no pattern or literal of the memory package mentions one, and U+0130 and U+212A
  are the only runes outside ASCII whose lower-case form is an ASCII letter.
\<close>

definition unicode_ToLower :: "rune \<Rightarrow> rune" where
  "unicode_ToLower r =
     (if 0x41 \<le> r \<and> r \<le> 0x5A then r + 32
      else if 0xC0 \<le> r \<and> r \<le> 0xDE \<and> r \<noteq> 0xD7 then r + 32
      else if r = 0x130 then 0x69
      else if r = 0x178 then 0xFF
      else if (0x100 \<le> r \<and> r \<le> 0x137) \<or> (0x14A \<le> r \<and> r \<le> 0x177) then (if even r then r + 1 else r)
      else if (0x139 \<le> r \<and> r \<le> 0x148) \<or> (0x179 \<le> r \<and> r \<le> 0x17E) then (if odd r then r + 1 else r)
      else if r = 0x2126 then 0x3C9
      else if r = 0x212A then 0x6B
      else if r = 0x212B then 0xE5
      else r)"

text \<open>\<open>strings.ToLower\<close>: every rune lower-cased and written back as UTF-8.\<close>

definition ToLower :: "string \<Rightarrow> string" where
  "ToLower s = unbytes (concat (map (\<lambda>r. EncodeRune (unicode_ToLower r)) (runes s)))"

text \<open>\<open>strings.HasPrefix\<close> and \<open>strings.Contains\<close> compare bytes.\<close>

fun HasPrefix :: "string \<Rightarrow> string \<Rightarrow> bool" where
  "HasPrefix s [] = True"
| "HasPrefix [] (p # ps) = False"
| "HasPrefix (c # cs) (p # ps) = (c = p \<and> HasPrefix cs ps)"

fun Contains :: "string \<Rightarrow> string \<Rightarrow> bool" where
  "Contains [] sub = (sub = [])"
| "Contains (c # cs) sub = (HasPrefix (c # cs) sub \<or> Contains cs sub)"

text \<open>\<open>unicode.IsSpace\<close>.\<close>

definition IsSpace :: "rune \<Rightarrow> bool" where
  "IsSpace r \<longleftrightarrow>
     (0x09 \<le> r \<and> r \<le> 0x0D) \<or> r = 0x20 \<or> r = 0x85 \<or> r = 0xA0 \<or> r = 0x1680 \<or>
     (0x2000 \<le> r \<and> r \<le> 0x200A) \<or> r = 0x2028 \<or> r = 0x2029 \<or> r = 0x202F \<or>
     r = 0x205F \<or> r = 0x3000"

text \<open>\<open>strings.Fields\<close>: the maximal runs of non-space runes, here kept as runs of chunks.\<close>

fun fields_aux :: "(rune \<times> nat list) list \<Rightarrow> (rune \<times> nat list) list \<Rightarrow> (rune \<times> nat list) list list" where
  "fields_aux cur [] = (if cur = [] then [] else [rev cur])"
| "fields_aux cur (c # cs) =
     (if IsSpace (fst c) then (if cur = [] then fields_aux [] cs else rev cur # fields_aux [] cs)
      else fields_aux (c # cur) cs)"

definition Fields :: "string \<Rightarrow> (rune \<times> nat list) list list" where
  "Fields s = fields_aux [] (chunks (bytes s))"

text \<open>\<open>strings.TrimFunc(word, f)\<close>: the word without its leading and trailing runes that
  satisfy \<open>f\<close>, as bytes.\<close>

definition TrimFunc :: "(rune \<times> nat list) list \<Rightarrow> (rune \<Rightarrow> bool) \<Rightarrow> string" where
  "TrimFunc w f =
     unbytes (concat (map snd (rev (dropWhile (\<lambda>c. f (fst c)) (rev (dropWhile (\<lambda>c. f (fst c)) w))))))"

section \<open>Regular expressions (package regexp, the fragment the memory package uses)\<close>

text \<open>
  A pattern is a term of \<open>re\<close> over runes; a character class is a list of inclusive ranges.
  Matching is by derivatives. \<open>MatchString\<close> is Go's unanchored search: some substring of the
  text matches. \<open>FullMatch\<close> is the search for a pattern written between \<open>^\<close> and \<open>$\<close>
  (without the \<open>m\<close> flag these are the start and the end of the text).
\<close>

datatype re = Empty | Eps | Cls "(rune \<times> rune) list" | Cat re re | Alt re re | Star re

fun in_class :: "rune \<Rightarrow> (rune \<times> rune) list \<Rightarrow> bool" where
  "in_class c [] = False"
| "in_class c ((lo, hi) # rs) = ((lo \<le> c \<and> c \<le> hi) \<or> in_class c rs)"

fun nullable :: "re \<Rightarrow> bool" where
  "nullable Empty = False"
| "nullable Eps = True"
| "nullable (Cls rs) = False"
| "nullable (Cat r s) = (nullable r \<and> nullable s)"
| "nullable (Alt r s) = (nullable r \<or> nullable s)"
| "nullable (Star r) = True"

text \<open>Concatenation and alternation that drop a branch which can no longer match.\<close>

fun cat :: "re \<Rightarrow> re \<Rightarrow> re" where
  "cat Empty s = Empty"
| "cat Eps s = s"
| "cat r s = Cat r s"

fun alt :: "re \<Rightarrow> re \<Rightarrow> re" where
  "alt Empty s = s"
| "alt r Empty = r"
| "alt r s = Alt r s"

fun deriv :: "rune \<Rightarrow> re \<Rightarrow> re" where
  "deriv c Empty = Empty"
| "deriv c Eps = Empty"
| "deriv c (Cls rs) = (if in_class c rs then Eps else Empty)"
| "deriv c (Cat r s) =
     (if nullable r then alt (cat (deriv c r) s) (deriv c s) else cat (deriv c r) s)"
| "deriv c (Alt r s) = alt (deriv c r) (deriv c s)"
| "deriv c (Star r) = cat (deriv c r) (Star r)"

fun dead :: "re \<Rightarrow> bool" where
  "dead Empty = True"
| "dead r = False"

fun FullMatch :: "re \<Rightarrow> rune list \<Rightarrow> bool" where
  "FullMatch r [] = nullable r"
| "FullMatch r (c # cs) = (if dead r then False else FullMatch (deriv c r) cs)"

fun prefix_match :: "re \<Rightarrow> rune list \<Rightarrow> bool" where
  "prefix_match r [] = nullable r"
| "prefix_match r (c # cs) =
     (if nullable r then True else if dead r then False else prefix_match (deriv c r) cs)"

fun search :: "re \<Rightarrow> rune list \<Rightarrow> bool" where
  "search r [] = nullable r"
| "search r (c # cs) = (if prefix_match r (c # cs) then True else search r cs)"

definition MatchString :: "re \<Rightarrow> string \<Rightarrow> bool" where
  "MatchString r s = search r (runes s)"

text \<open>Pattern syntax: a literal rune, \<open>r+\<close>, \<open>r{n}\<close>, \<open>r{n,}\<close> and
  an alternation of several branches.\<close>

definition Lit :: "rune \<Rightarrow> re" where
  "Lit c = Cls [(c, c)]"

definition Plus :: "re \<Rightarrow> re" where
  "Plus r = Cat r (Star r)"

fun Rep :: "nat \<Rightarrow> re \<Rightarrow> re" where
  "Rep 0 r = Eps"
| "Rep (Suc n) r = Cat r (Rep n r)"

definition RepMin :: "nat \<Rightarrow> re \<Rightarrow> re" where
  "RepMin n r = Cat (Rep n r) (Star r)"

fun Seq :: "re list \<Rightarrow> re" where
  "Seq [] = Eps"
| "Seq [r] = r"
| "Seq (r # rs) = Cat r (Seq rs)"

fun Alts :: "re list \<Rightarrow> re" where
  "Alts [] = Empty"
| "Alts [r] = r"
| "Alts (r # rs) = Alt r (Alts rs)"

text \<open>
  Under the flag \<open>(?i)\<close> a literal matches every rune of its orbit under
  \<open>unicode.SimpleFold\<close>: for an ASCII letter its two cases, and besides them U+212A (Kelvin
  sign) for k and U+017F (long s) for s; for the Czech letters of the patterns their two
  cases.
\<close>

definition fold_class :: "rune \<Rightarrow> (rune \<times> rune) list" where
  "fold_class c =
     (let l = (if 0x41 \<le> c \<and> c \<le> 0x5A then c + 32 else c) in
      if l = 0x6B then [(0x4B, 0x4B), (0x6B, 0x6B), (0x212A, 0x212A)]
      else if l = 0x73 then [(0x53, 0x53), (0x73, 0x73), (0x17F, 0x17F)]
      else if 0x61 \<le> l \<and> l \<le> 0x7A then [(l - 32, l - 32), (l, l)]
      else if c = 0xE1 \<or> c = 0xC1 then [(0xC1, 0xC1), (0xE1, 0xE1)]
      else if c = 0x161 \<or> c = 0x160 then [(0x160, 0x161)]
      else if c = 0x16F \<or> c = 0x16E then [(0x16E, 0x16F)]
      else [(c, c)])"

definition stri :: "string \<Rightarrow> re" where
  "stri s = Seq (map (\<lambda>c. Cls (fold_class (of_char c))) s)"

text \<open>The Perl classes \<open>\d\<close>, \<open>\s\<close> and \<open>\w\<close>; under \<open>(?i)\<close> the class \<open>\w\<close> is closed
  under case folding, which adds U+017F and U+212A.\<close>

definition cls_d :: "(rune \<times> rune) list" where
  "cls_d = [(0x30, 0x39)]"

definition cls_s :: "(rune \<times> rune) list" where
  "cls_s = [(0x09, 0x0A), (0x0C, 0x0D), (0x20, 0x20)]"

definition cls_w :: "(rune \<times> rune) list" where
  "cls_w = [(0x30, 0x39), (0x41, 0x5A), (0x5F, 0x5F), (0x61, 0x7A)]"

definition cls_wi :: "(rune \<times> rune) list" where
  "cls_wi = cls_w @ [(0x17F, 0x17F), (0x212A, 0x212A)]"

text \<open>
  The language of a pattern, for stating what the matcher decides: the words a pattern
  matches in full. \<open>star A\<close> is the set of concatenations of words of \<open>A\<close>.
\<close>

inductive_set star :: "'a list set \<Rightarrow> 'a list set" for A :: "'a list set" where
  empty: "[] \<in> star A"
| more: "u \<in> A \<Longrightarrow> v \<in> star A \<Longrightarrow> u @ v \<in> star A"

fun lang :: "re \<Rightarrow> rune list set" where
  "lang Empty = {}"
| "lang Eps = {[]}"
| "lang (Cls cl) = {[c] | c. in_class c cl}"
| "lang (Cat r s) = {u @ v | u v. u \<in> lang r \<and> v \<in> lang s}"
| "lang (Alt r s) = lang r \<union> lang s"
| "lang (Star r) = star (lang r)"

section \<open>Vectors\<close>

text \<open>
  A \<open>float32\<close> value is modelled by the real number it stands for. The sum of squares and
  the norm of \<open>normalizeVector\<close> can overflow: they are values of \<open>xfloat\<close>, a finite value
  or \<open>+Inf\<close>. A component of a vector comes out of a JSON document or out of a count, so it
  is finite; a sum of squares is not negative, so no \<open>-Inf\<close> and no NaN arises.
\<close>

datatype xfloat = Fin real | PosInf

text \<open>
  What the machine makes of the three \<open>float32\<close> computations of \<open>normalizeVector\<close> is a
  parameter of the model, the arithmetic \<open>m\<close>: \<open>fsqadd m sum x\<close> is \<open>sum + x * x\<close>, which
  Go lets the compiler round once (a fused multiply-add) or twice; \<open>fnorm m sum\<close> is
  \<open>float32(math.Sqrt(float64(sum)))\<close>; \<open>fdiv m x norm\<close> is \<open>x / norm\<close>.
\<close>

record float32_arith =
  fsqadd :: "xfloat \<Rightarrow> real \<Rightarrow> xfloat"
  fnorm :: "xfloat \<Rightarrow> xfloat"
  fdiv :: "real \<Rightarrow> xfloat \<Rightarrow> real"

text \<open>\<open>normalizeVector\<close>: divide by the computed norm; when the computed norm is 0 the
  vector is returned as it is.\<close>

definition normalizeVector :: "float32_arith \<Rightarrow> real list \<Rightarrow> real list" where
  "normalizeVector m v =
     (let sum = foldl (fsqadd m) (Fin 0) v;
          norm = fnorm m sum
      in if norm = Fin 0 then v else map (\<lambda>x. fdiv m x norm) v)"

text \<open>\<open>cosineSimilarity\<close>: 0 for vectors of different lengths or of norm 0. Its sums,
  products, quotient and square roots are exact: here the theory speaks about the arithmetic
  the code asks for and not about its rounding.\<close>

definition cosineSimilarity :: "real list \<Rightarrow> real list \<Rightarrow> real" where
  "cosineSimilarity a b =
     (if length a \<noteq> length b then 0
      else
        let (dotProduct, normA, normB) =
              foldl (\<lambda>(d, na, nb) (x, y). (d + x * y, na + x * x, nb + y * y)) (0, 0, 0) (zip a b)
        in if normA = 0 \<or> normB = 0 then 0
           else dotProduct / (sqrt normA * sqrt normB))"

text \<open>The L2 norm of a vector, for stating properties.\<close>

definition l2norm :: "real list \<Rightarrow> real" where
  "l2norm v = sqrt (\<Sum>x\<leftarrow>v. x * x)"

subsection \<open>Two arithmetics\<close>

text \<open>The arithmetic without rounding and without a largest number.\<close>

definition exact_arith :: float32_arith where
  "exact_arith =
     \<lparr> fsqadd = (\<lambda>acc x. case acc of PosInf \<Rightarrow> PosInf | Fin s \<Rightarrow> Fin (s + x * x)),
       fnorm = (\<lambda>acc. case acc of PosInf \<Rightarrow> PosInf | Fin s \<Rightarrow> Fin (sqrt s)),
       fdiv = (\<lambda>x norm. case norm of PosInf \<Rightarrow> 0 | Fin n \<Rightarrow> x / n) \<rparr>"

text \<open>
  IEEE 754 arithmetic, rounding to the nearest value and a tie to the even one.
  \<open>pow2 e\<close> is the power of 2 with the exponent \<open>e\<close>; \<open>rhe x\<close> is the integer nearest to
  \<open>x\<close>, the even one of two; \<open>exponent_of emin emax a\<close> is the exponent under which \<open>a\<close>
  is rounded: the least \<open>e\<close> from \<open>emin\<close> on with \<open>a < pow2 (e + 1)\<close>, and \<open>emax\<close> when
  there is none. For \<open>a\<close> below \<open>pow2 emin\<close> that is \<open>emin\<close>, the exponent of the subnormal
  values.
\<close>

definition pow2 :: "int \<Rightarrow> real" where
  "pow2 e = (if 0 \<le> e then 2 ^ nat e else 1 / 2 ^ nat (- e))"

definition rhe :: "real \<Rightarrow> int" where
  "rhe x =
     (let f = \<lfloor>x\<rfloor>; d = x - of_int f
      in if d < 1 / 2 then f else if 1 / 2 < d then f + 1 else if even f then f else f + 1)"

function exponent_of :: "int \<Rightarrow> int \<Rightarrow> real \<Rightarrow> int" where
  "exponent_of e emax a =
     (if emax \<le> e \<or> a < pow2 (e + 1) then e else exponent_of (e + 1) emax a)"
  by pat_completeness auto
termination by (relation "measure (\<lambda>(e, emax, a). nat (emax - e))") auto

declare exponent_of.simps [simp del]

text \<open>
  \<open>round_at p emax e x\<close> rounds \<open>x\<close> to a multiple of \<open>pow2 (e - p + 1)\<close>, the spacing of
  the values with \<open>p\<close> digits and the exponent \<open>e\<close>; a result that reaches
  \<open>pow2 (emax + 1)\<close> has overflowed. \<open>round32\<close> is the rounding to \<open>float32\<close>: 24 digits, exponents from -126 to
  127.
\<close>

definition round_at :: "nat \<Rightarrow> int \<Rightarrow> int \<Rightarrow> real \<Rightarrow> xfloat" where
  "round_at p emax e x =
     (let q = pow2 (e - int p + 1);
          y = of_int (rhe (\<bar>x\<bar> / q)) * q
      in if pow2 (emax + 1) \<le> y then PosInf else Fin (sgn x * y))"

definition round32 :: "real \<Rightarrow> xfloat" where
  "round32 x = round_at 24 127 (exponent_of (- 126) 127 \<bar>x\<bar>) x"

text \<open>
  \<open>math.Sqrt\<close> on the \<open>float64\<close> of a positive \<open>float32\<close> value \<open>s\<close>: the square root
  rounded to 53 digits. With \<open>e\<close> the exponent of the root and \<open>q = pow2 (e - 52)\<close>, the
  root is \<open>q\<close> times the square root of \<open>t = s / (q * q)\<close>, whose integer part \<open>r\<close> has 53
  binary digits; \<open>isqrt_from\<close> finds them from the highest down, and \<open>sqrt_round t r\<close> is
  \<open>r + 1\<close> when the square root of \<open>t\<close> is nearer to it than to \<open>r\<close>, that is, when \<open>t\<close>
  is above the square of \<open>r + 1 / 2\<close>.
\<close>

function isqrt_from :: "int \<Rightarrow> int \<Rightarrow> int \<Rightarrow> int" where
  "isqrt_from b n r =
     (if b < 0 then r
      else isqrt_from (b - 1) n
             (if (r + 2 ^ nat b) * (r + 2 ^ nat b) \<le> n then r + 2 ^ nat b else r))"
  by pat_completeness auto
termination by (relation "measure (\<lambda>(b, n, r). nat (b + 1))") auto

declare isqrt_from.simps [simp del]

definition sqrt_round :: "real \<Rightarrow> int \<Rightarrow> int" where
  "sqrt_round t r =
     (let h = of_int (r * r + r) + 1 / 4
      in if h < t \<or> (h = t \<and> odd r) then r + 1 else r)"

definition sqrt_at :: "int \<Rightarrow> real \<Rightarrow> real" where
  "sqrt_at e s =
     of_int (sqrt_round (s / (pow2 (e - 52) * pow2 (e - 52)))
               (isqrt_from 52 \<lfloor>s / (pow2 (e - 52) * pow2 (e - 52))\<rfloor> 0))
     * pow2 (e - 52)"

definition sqrt64 :: "real \<Rightarrow> real" where
  "sqrt64 s = (if s \<le> 0 then 0 else sqrt_at (exponent_of (- 149) 127 s div 2) s)"

text \<open>
  \<open>binary32\<close>: the arithmetic of a machine that rounds the product and the sum of
  \<open>sum + x * x\<close> one after the other. An infinite sum stays infinite, a component divided by
  an infinite norm is 0. (A quotient beyond the range of \<open>float32\<close> has no finite value and is
  left as it is; the quotient of a component by a norm computed from that component is not
  of this kind.)
\<close>

definition binary32 :: float32_arith where
  "binary32 =
     \<lparr> fsqadd = (\<lambda>acc x. case acc of
                    PosInf \<Rightarrow> PosInf
                  | Fin s \<Rightarrow> (case round32 (x * x) of
                               PosInf \<Rightarrow> PosInf
                             | Fin p \<Rightarrow> round32 (s + p))),
       fnorm = (\<lambda>acc. case acc of PosInf \<Rightarrow> PosInf | Fin s \<Rightarrow> round32 (sqrt64 s)),
       fdiv = (\<lambda>x norm. case norm of
                  PosInf \<Rightarrow> 0
                | Fin n \<Rightarrow> (case round32 (x / n) of Fin y \<Rightarrow> y | PosInf \<Rightarrow> x / n)) \<rparr>"

section \<open>Embedding providers\<close>

subsection \<open>LocalEmbedder: the hash fallback\<close>

record LocalEmbedder =
  modelPath :: string
  dims :: nat

text \<open>The dimension \<open>NewLocalEmbedder\<close> gives an embedder for a model path.\<close>

definition NewLocalEmbedder_dims :: "string \<Rightarrow> nat" where
  "NewLocalEmbedder_dims path = (if Contains path ''large'' then 768 else 384)"

text \<open>\<open>extractNgrams\<close>: the byte windows \<open>text[i:i+n]\<close> of the lower-cased text, for
  \<open>i = 0, ..., len(text) - n\<close>.\<close>

definition extractNgrams :: "string \<Rightarrow> nat \<Rightarrow> string list" where
  "extractNgrams text n =
     (let text = ToLower text
      in map (\<lambda>i. take n (drop i text)) [0..<Suc (length text) - n])"

text \<open>\<open>hashString\<close>: \<open>hash = ((hash << 5) + hash) + uint64(c)\<close> over the runes of \<open>s\<close>, from
  5381, in \<open>uint64\<close>.\<close>

definition hashString :: "string \<Rightarrow> 64 word" where
  "hashString s = foldl (\<lambda>hash c. (push_bit 5 hash + hash) + of_nat c) 5381 (runes s)"

text \<open>
  \<open>fallbackEmbedding\<close>: a histogram of the hashed 3-grams over \<open>dims\<close> buckets, normalized.
  \<open>hash % uint64(e.dims)\<close> panics when \<open>dims\<close> is 0 and there is an n-gram to hash; that is
  the value \<open>None\<close>.
\<close>

definition fallbackEmbedding :: "float32_arith \<Rightarrow> LocalEmbedder \<Rightarrow> string \<Rightarrow> real list option" where
  "fallbackEmbedding m e text =
     (let vector = replicate (dims e) (0::real);
          ngrams = extractNgrams text 3
      in if dims e = 0 \<and> ngrams \<noteq> [] then None
         else Some (normalizeVector m
           (foldl (\<lambda>vector ngram.
                     let hash = hashString ngram;
                         idx = unat hash mod dims e
                     in vector[idx := vector ! idx + 1])
                  vector ngrams)))"

subsection \<open>SimpleEmbedder: term frequencies over a built-in vocabulary\<close>

definition commonWords :: "string list" where
  "commonWords =
    [''the'', ''be'', ''to'', ''of'', ''and'', ''a'', ''in'', ''that'', ''have'', ''i'',
     ''it'', ''for'', ''not'', ''on'', ''with'', ''he'', ''as'', ''you'', ''do'', ''at'',
     ''this'', ''but'', ''his'', ''by'', ''from'', ''they'', ''we'', ''say'', ''her'', ''she'',
     ''or'', ''an'', ''will'', ''my'', ''one'', ''all'', ''would'', ''there'', ''their'', ''what'',
     ''so'', ''up'', ''out'', ''if'', ''about'', ''who'', ''get'', ''which'', ''go'', ''me'',
     ''when'', ''make'', ''can'', ''like'', ''time'', ''no'', ''just'', ''him'', ''know'', ''take'',
     ''people'', ''into'', ''year'', ''your'', ''good'', ''some'', ''could'', ''them'', ''see'', ''other'',
     ''than'', ''then'', ''now'', ''look'', ''only'', ''come'', ''its'', ''over'', ''think'', ''also'',
     ''back'', ''after'', ''use'', ''two'', ''how'', ''our'', ''work'', ''first'', ''well'', ''way'',
     ''even'', ''new'', ''want'', ''because'', ''any'', ''these'', ''give'', ''day'', ''most'', ''us'',
     ''is'', ''was'', ''are'', ''were'', ''been'', ''has'', ''had'', ''did'', ''does'', ''doing'',
     ''code'', ''function'', ''class'', ''method'', ''variable'', ''program'', ''software'', ''computer'',
     ''data'', ''file'', ''project'', ''build'', ''test'', ''run'', ''debug'', ''error'', ''fix'',
     ''create'', ''add'', ''remove'', ''delete'', ''update'', ''change'', ''modify'', ''edit'',
     ''install'', ''configure'', ''setup'', ''deploy'', ''server'', ''client'', ''api'', ''web'',
     ''database'', ''query'', ''table'', ''column'', ''row'', ''sql'', ''nosql'', ''json'', ''xml'',
     ''python'', ''javascript'', ''typescript'', ''go'', ''golang'', ''rust'', ''java'', ''cpp'', ''c++'',
     ''react'', ''vue'', ''angular'', ''node'', ''express'', ''django'', ''flask'', ''fastapi'',
     ''docker'', ''kubernetes'', ''container'', ''cloud'', ''aws'', ''azure'', ''gcp'',
     ''git'', ''github'', ''commit'', ''branch'', ''merge'', ''pull'', ''push'', ''repository'',
     ''memory'', ''remember'', ''recall'', ''search'', ''find'', ''store'', ''save'', ''load'',
     ''user'', ''preference'', ''like'', ''dislike'', ''want'', ''need'', ''important'', ''always'',
     ''never'', ''usually'', ''sometimes'', ''often'', ''rarely'', ''name'', ''email'', ''phone'',
     ''address'', ''location'', ''place'', ''city'', ''country'', ''company'', ''work'', ''job'']"

record SimpleEmbedder =
  vocab :: "string \<rightharpoonup> nat"
  sdims :: nat

text \<open>\<open>for i, word := range words { vocab[word] = i }\<close>: a later index replaces an earlier
  one.\<close>

definition build_vocab :: "string list \<Rightarrow> (string \<rightharpoonup> nat)" where
  "build_vocab ws = foldl (\<lambda>vocab (i, word). vocab(word \<mapsto> i)) Map.empty (zip [0..<length ws] ws)"

definition NewSimpleEmbedder :: SimpleEmbedder where
  "NewSimpleEmbedder = \<lparr> vocab = build_vocab commonWords, sdims = length commonWords \<rparr>"

text \<open>The tokens of \<open>Embed\<close>: the fields of the lower-cased text, each stripped of the runes
  outside \<open>a\<close>..\<open>z\<close> at its two ends.\<close>

definition trim_word :: "(rune \<times> nat list) list \<Rightarrow> string" where
  "trim_word word = TrimFunc word (\<lambda>r. r < 0x61 \<or> r > 0x7A)"

text \<open>\<open>wordCount\<close>, the Go map from a token to its number of occurrences; a token that is
  not a key counts 0.\<close>

definition count_words :: "(rune \<times> nat list) list list \<Rightarrow> (string \<Rightarrow> nat)" where
  "count_words words =
     foldl (\<lambda>wordCount word.
              let word = trim_word word
              in if word \<noteq> [] then wordCount(word := wordCount word + 1) else wordCount)
           (\<lambda>_. 0) words"

text \<open>The keys of \<open>wordCount\<close>, in the order of their first occurrence.\<close>

definition word_keys :: "(rune \<times> nat list) list list \<Rightarrow> string list" where
  "word_keys words = remdups (filter (\<lambda>w. w \<noteq> []) (map trim_word words))"

text \<open>
  \<open>Embed\<close>. Go ranges over the map \<open>wordCount\<close> in an order the runtime chooses anew each
  time; the order is the argument \<open>keys\<close>, an enumeration of the map's keys.
\<close>

definition SimpleEmbed_in ::
  "float32_arith \<Rightarrow> SimpleEmbedder \<Rightarrow> string list \<Rightarrow> string \<Rightarrow> real list" where
  "SimpleEmbed_in m e keys text =
     (let vector = replicate (sdims e) (0::real);
          words = Fields (ToLower text);
          wordCount = count_words words
      in normalizeVector m
           (foldl (\<lambda>vector word.
                     case vocab e word of
                       Some idx \<Rightarrow>
                         let tf = real (wordCount word) / real (length words)
                         in vector[idx := tf]
                     | None \<Rightarrow> vector)
                  vector keys))"

text \<open>The orders in which the runtime may range over \<open>wordCount\<close>.\<close>

definition range_order :: "string \<Rightarrow> string list \<Rightarrow> bool" where
  "range_order text keys \<longleftrightarrow>
     distinct keys \<and> set keys = set (word_keys (Fields (ToLower text)))"

subsection \<open>The three providers behind the interface\<close>

text \<open>
  \<open>OpenAIEmbedder.Embed\<close> posts the text to the remote service. The exchange is the
  argument \<open>post\<close>: a transport error, or a status code with the decoded field \<open>data\<close> of
  the body (\<open>None\<close> when the body does not decode).
\<close>

datatype http_outcome = TransportError string | Response nat "real list list option"

definition OpenAI_Embed ::
  "float32_arith \<Rightarrow> (string \<Rightarrow> http_outcome) \<Rightarrow> string \<Rightarrow> string + real list" where
  "OpenAI_Embed m post text =
     (case post text of
        TransportError err \<Rightarrow> Inl err
      | Response status body \<Rightarrow>
          if status \<noteq> 200 then Inl ''OpenAI API error''
          else (case body of
                  None \<Rightarrow> Inl ''invalid response body''
                | Some data \<Rightarrow>
                    (case data of
                       [] \<Rightarrow> Inl ''no embedding returned''
                     | embedding # _ \<Rightarrow> Inr (normalizeVector m embedding))))"

text \<open>
  \<open>LocalEmbedder.Embed\<close>. Whether \<open>embed.py\<close> lies beside the model, and what the script
  prints for a text, is the argument \<open>script\<close>: \<open>None\<close> when there is no script, else the
  run of the script (an error, or the parsed array). A panic of the fallback is shown as an
  error value.
\<close>

definition LocalEmbed ::
  "float32_arith \<Rightarrow> LocalEmbedder \<Rightarrow> (string \<Rightarrow> string + real list) option \<Rightarrow> string \<Rightarrow>
     string + real list" where
  "LocalEmbed m e script text =
     (case script of
        Some run \<Rightarrow>
          (case run text of
             Inl err \<Rightarrow> Inl err
           | Inr embedding \<Rightarrow> Inr (normalizeVector m embedding))
      | None \<Rightarrow>
          (case fallbackEmbedding m e text of
             None \<Rightarrow> Inl ''panic: integer divide by zero''
           | Some v \<Rightarrow> Inr v))"

text \<open>A provider is one of the three; \<open>Embed\<close> is the interface method, on a machine with
  the arithmetic \<open>m\<close>. The vocabulary provider carries the order in which the runtime ranges
  over its map for each text.\<close>

datatype provider =
    OpenAI "string \<Rightarrow> http_outcome"
  | Local LocalEmbedder "(string \<Rightarrow> string + real list) option"
  | Simple SimpleEmbedder "string \<Rightarrow> string list"

fun Embed :: "float32_arith \<Rightarrow> provider \<Rightarrow> string \<Rightarrow> string + real list" where
  "Embed m (OpenAI post) text = OpenAI_Embed m post text"
| "Embed m (Local e script) text = LocalEmbed m e script text"
| "Embed m (Simple e order) text = Inr (SimpleEmbed_in m e (order text) text)"

section \<open>MemoryStore\<close>

record MemoryEntry =
  ID :: string
  Text :: string
  Vector :: "real list"
  Importance :: real
  Category :: string
  SessionKey :: string
  CreatedAt :: nat

record MemorySearchResult =
  Entry :: MemoryEntry
  Score :: real

text \<open>The fields of \<open>StoreConfig\<close> that \<open>Store\<close>, \<open>Search\<close> and \<open>Delete\<close> read.\<close>

record StoreConfig =
  MinScore :: real
  MaxResults :: int

text \<open>
  The errors of the package are values made with \<open>fmt.Errorf\<close>; each constructor stands for
  one message, named after the kind of failure:
  \<^item> \<open>EmbeddingFailure\<close>: "failed to generate embedding" and "failed to generate query
    embedding", around the embedder's own error;
  \<^item> \<open>PersistenceError\<close>: "failed to store memory", around the database's error;
  \<^item> \<open>ValidationError\<close>: "invalid memory ID format";
  \<^item> \<open>NotFoundError\<close>: "memory not found";
  \<^item> \<open>Panic\<close>: a run-time panic (a slice bound out of range, a division by zero).
\<close>

datatype error =
    EmbeddingFailure string
  | PersistenceError string
  | ValidationError string
  | NotFoundError string
  | Panic string

text \<open>
  The store: the rows of table \<open>memories\<close> in the order of their insertion, the embedding
  provider (the method \<open>Embed\<close> of the interface value), the configuration and the category
  list. Opening, reading and writing the database file are taken to succeed, and a row is
  read back as it was written (the JSON text of a vector decodes to that vector); the one
  database error in the model is the violation of the primary key on \<open>id\<close>.
\<close>

record MemoryStore =
  db :: "MemoryEntry list"
  embedder :: "string \<Rightarrow> string + real list"
  config :: StoreConfig
  categories :: "string list"

definition MemoryCategories :: "string list" where
  "MemoryCategories = [''preference'', ''decision'', ''entity'', ''fact'', ''other'']"

text \<open>\<open>NewMemoryStore\<close>, once the database is open and the embedder is made: an empty table
  when the file is new.\<close>

definition NewMemoryStore :: "StoreConfig \<Rightarrow> (string \<Rightarrow> string + real list) \<Rightarrow> MemoryStore" where
  "NewMemoryStore cfg emb = \<lparr> db = [], embedder = emb, config = cfg, categories = MemoryCategories \<rparr>"

definition isValidCategory :: "MemoryStore \<Rightarrow> string \<Rightarrow> bool" where
  "isValidCategory s category = list_ex (\<lambda>c. c = category) (categories s)"

text \<open>
  \<open>Store\<close>. The fresh identifier of \<open>uuid.New()\<close> and the clock reading of \<open>time.Now()\<close>
  are the arguments \<open>new_id\<close> and \<open>now\<close>. The result is the returned pair and the store
  after the call.
\<close>

definition Store ::
  "MemoryStore \<Rightarrow> string \<Rightarrow> nat \<Rightarrow> string \<Rightarrow> real \<Rightarrow> string \<Rightarrow> string \<Rightarrow> (error + MemoryEntry) \<times> MemoryStore" where
  "Store s new_id now text importance category sessionKey =
     (case embedder s text of
        Inl err \<Rightarrow> (Inl (EmbeddingFailure err), s)
      | Inr vector \<Rightarrow>
          let category = (if \<not> isValidCategory s category then ''other'' else category);
              entry = \<lparr> ID = new_id, Text = text, Vector = vector, Importance = importance,
                        Category = category, SessionKey = sessionKey, CreatedAt = now \<rparr>
          in if list_ex (\<lambda>e. ID e = new_id) (db s)
             then (Inl (PersistenceError ''UNIQUE constraint failed: memories.id''), s)
             else (Inr entry, s\<lparr> db := db s @ [entry] \<rparr>))"

text \<open>\<open>SELECT ... ORDER BY created_at DESC LIMIT 1000\<close>: the candidate window. Among rows
  with one \<open>created_at\<close> the later insertion comes first.\<close>

definition candidate_window :: "MemoryStore \<Rightarrow> MemoryEntry list" where
  "candidate_window s = take 1000 (rev (sort_key CreatedAt (db s)))"

text \<open>The scoring loop over the rows: a row is kept when its score reaches \<open>minScore\<close>.\<close>

definition score_rows :: "real list \<Rightarrow> real \<Rightarrow> MemoryEntry list \<Rightarrow> MemorySearchResult list" where
  "score_rows queryVector minScore rows =
     foldl (\<lambda>results entry.
              let score = cosineSimilarity queryVector (Vector entry)
              in if score \<ge> minScore then results @ [\<lparr> Entry = entry, Score = score \<rparr>]
                 else results)
           [] rows"

text \<open>
  The sort of \<open>Search\<close>:
  \<^verbatim>\<open>
  for i := 0; i < len(results)-1; i++ {
      for j := i + 1; j < len(results); j++ {
          if results[j].Score > results[i].Score {
              results[i], results[j] = results[j], results[i]
          }
      }
  }
  \<close>
\<close>

definition swap_step :: "nat \<Rightarrow> MemorySearchResult list \<Rightarrow> nat \<Rightarrow> MemorySearchResult list" where
  "swap_step i results j =
     (if Score (results ! j) > Score (results ! i)
      then results[i := results ! j, j := results ! i]
      else results)"

definition inner_loop :: "MemorySearchResult list \<Rightarrow> nat \<Rightarrow> MemorySearchResult list" where
  "inner_loop results i = foldl (swap_step i) results [i + 1..<length results]"

definition sort_results :: "MemorySearchResult list \<Rightarrow> MemorySearchResult list" where
  "sort_results results = foldl inner_loop results [0..<length results - 1]"

text \<open>\<open>Search\<close>. \<open>results[:limit]\<close> with a negative \<open>limit\<close> is a run-time panic.\<close>

definition Search :: "MemoryStore \<Rightarrow> string \<Rightarrow> int \<Rightarrow> real \<Rightarrow> error + MemorySearchResult list" where
  "Search s query limit minScore =
     (let limit = (if limit \<le> 0 then MaxResults (config s) else limit);
          minScore = (if minScore \<le> 0 then MinScore (config s) else minScore)
      in case embedder s query of
           Inl err \<Rightarrow> Inl (EmbeddingFailure err)
         | Inr queryVector \<Rightarrow>
             let results = score_rows queryVector minScore (candidate_window s);
                 results = sort_results results
             in if int (length results) > limit
                then (if limit < 0 then Inl (Panic ''slice bounds out of range'')
                      else Inr (take (nat limit) results))
                else Inr results)"

text \<open>The pattern of \<open>Delete\<close>:
  \<^verbatim>\<open>^[0-9a-f]{8}-[0-9a-f]{4}-[0-9a-f]{4}-[0-9a-f]{4}-[0-9a-f]{12}$\<close>\<close>

definition cls_hex :: "(rune \<times> rune) list" where
  "cls_hex = [(0x30, 0x39), (0x61, 0x66)]"

definition uuidRegex :: re where
  "uuidRegex = Seq [Rep 8 (Cls cls_hex), Lit 0x2D, Rep 4 (Cls cls_hex), Lit 0x2D,
                    Rep 4 (Cls cls_hex), Lit 0x2D, Rep 4 (Cls cls_hex), Lit 0x2D,
                    Rep 12 (Cls cls_hex)]"

text \<open>\<open>Delete\<close>: the returned error (\<open>None\<close> for \<open>nil\<close>) and the store after the call. The
  statement \<open>DELETE FROM memories WHERE id = ?\<close> removes the rows whose \<open>id\<close> is the argument
  as given.\<close>

definition Delete :: "MemoryStore \<Rightarrow> string \<Rightarrow> error option \<times> MemoryStore" where
  "Delete s ident =
     (if \<not> FullMatch uuidRegex (runes (ToLower ident)) then (Some (ValidationError ident), s)
      else
        let rows = length (filter (\<lambda>e. ID e = ident) (db s));
            s' = s\<lparr> db := filter (\<lambda>e. ID e \<noteq> ident) (db s) \<rparr>
        in if rows = 0 then (Some (NotFoundError ident), s') else (None, s'))"

definition Count :: "MemoryStore \<Rightarrow> nat" where
  "Count s = length (db s)"

section \<open>The tools and AutoCapture\<close>

text \<open>A value of a \<open>map[string]interface{}\<close> decoded from JSON.\<close>

datatype json = JNull | JBool bool | JNumber real | JString string | JArray "json list"
  | JObject "(string \<times> json) list"

text \<open>The text of a tool result is kept as the pieces that \<open>fmt.Sprintf\<close> joins: literal
  text, \<open>%d\<close> of an integer and \<open>%.2f\<close> of a score.\<close>

datatype piece = Str string | Dec nat | Fix2 real

datatype tool_error = QueryRequired | SearchFailed error | TextRequired | StoreFailed error

record ToolResult =
  ForLLM :: "piece list"
  ForUser :: string
  Err :: "tool_error option"

text \<open>\<open>int(l)\<close> of a \<open>float64\<close>: truncation towards zero.\<close>

definition int_of_float :: "real \<Rightarrow> int" where
  "int_of_float l = (if l < 0 then \<lceil>l\<rceil> else \<lfloor>l\<rfloor>)"

text \<open>\<open>MemoryTool.Execute\<close>, the recall tool.\<close>

definition format_results :: "MemorySearchResult list \<Rightarrow> piece list" where
  "format_results results =
     [Str ''Found '', Dec (length results), Str '' relevant memories:\<newline>\<newline>''] @
     concat (map (\<lambda>(i, r). [Dec (i + 1), Str ''. ['', Str (Category (Entry r)), Str ''] (score: '',
                              Fix2 (Score r), Str '') '', Str (Text (Entry r)), Str ''\<newline>''])
                 (zip [0..<length results] results))"

definition Execute :: "MemoryStore \<Rightarrow> (string \<rightharpoonup> json) \<Rightarrow> ToolResult" where
  "Execute store params =
     (case (case params ''query'' of Some (JString q) \<Rightarrow> Some q | _ \<Rightarrow> None) of
        None \<Rightarrow> \<lparr> ForLLM = [], ForUser = [], Err = Some QueryRequired \<rparr>
      | Some query \<Rightarrow>
          if query = [] then \<lparr> ForLLM = [], ForUser = [], Err = Some QueryRequired \<rparr>
          else
            let limit = (case params ''limit'' of Some (JNumber l) \<Rightarrow> int_of_float l | _ \<Rightarrow> 5)
            in case Search store query limit 0.5 of
                 Inl err \<Rightarrow> \<lparr> ForLLM = [], ForUser = [], Err = Some (SearchFailed err) \<rparr>
               | Inr results \<Rightarrow>
                   if length results = 0
                   then \<lparr> ForLLM = [Str ''No relevant memories found.''], ForUser = [], Err = None \<rparr>
                   else \<lparr> ForLLM = format_results results, ForUser = [], Err = None \<rparr>)"

text \<open>\<open>MemoryCaptureTool.Execute\<close>, the capture tool: the result and the store after the
  call. The conversion \<open>float32(i)\<close> of the importance is exact in the model.\<close>

definition MemoryCaptureTool_Execute ::
  "MemoryStore \<Rightarrow> string \<Rightarrow> nat \<Rightarrow> (string \<rightharpoonup> json) \<Rightarrow> ToolResult \<times> MemoryStore" where
  "MemoryCaptureTool_Execute store new_id now params =
     (case (case params ''text'' of Some (JString t) \<Rightarrow> Some t | _ \<Rightarrow> None) of
        None \<Rightarrow> (\<lparr> ForLLM = [], ForUser = [], Err = Some TextRequired \<rparr>, store)
      | Some text \<Rightarrow>
          if text = [] then (\<lparr> ForLLM = [], ForUser = [], Err = Some TextRequired \<rparr>, store)
          else
            let category = (case params ''category'' of Some (JString c) \<Rightarrow> c | _ \<Rightarrow> ''other'');
                importance = (case params ''importance'' of Some (JNumber i) \<Rightarrow> i | _ \<Rightarrow> 0.5)
            in case Store store new_id now text importance category [] of
                 (Inl err, s') \<Rightarrow> (\<lparr> ForLLM = [], ForUser = [], Err = Some (StoreFailed err) \<rparr>, s')
               | (Inr entry, s') \<Rightarrow>
                   (\<lparr> ForLLM = [Str ''Memory stored successfully (ID: '', Str (ID entry), Str '')''],
                      ForUser = [], Err = None \<rparr>, s'))"

text \<open>The trigger patterns of \<open>ShouldCapture\<close>, in the order of the source:
  \<^verbatim>\<open>(?i)remember|zapamatuj|pamatuj\<close>,
  \<^verbatim>\<open>(?i)prefer|rad[U+0161]i|like|love|hate|want|need\<close>,
  \<^verbatim>\<open>(?i)decided|rozhodli|will use|budeme\<close>,
  \<^verbatim>\<open>\+\d{10,}\<close>,
  \<^verbatim>\<open>[\w.-]+@[\w.-]+\.\w+\<close>,
  \<^verbatim>\<open>(?i)m[U+016F]j\s+\w+\s+je|je\s+m[U+016F]j\<close>,
  \<^verbatim>\<open>(?i)my\s+\w+\s+is|is\s+my\<close>,
  \<^verbatim>\<open>(?i)always|never|important\<close>.
  A letter outside ASCII is written here as its code point in brackets.\<close>

definition triggers :: "re list" where
  "triggers =
     [Alts [stri ''remember'', stri ''zapamatuj'', stri ''pamatuj''],
      Alts [stri ''prefer'', Seq [stri ''rad'', Cls (fold_class 0x161), stri ''i''], stri ''like'',
            stri ''love'', stri ''hate'', stri ''want'', stri ''need''],
      Alts [stri ''decided'', stri ''rozhodli'', stri ''will use'', stri ''budeme''],
      Seq [Lit 0x2B, RepMin 10 (Cls cls_d)],
      Seq [Plus (Cls (cls_w @ [(0x2E, 0x2E), (0x2D, 0x2D)])), Lit 0x40,
           Plus (Cls (cls_w @ [(0x2E, 0x2E), (0x2D, 0x2D)])), Lit 0x2E, Plus (Cls cls_w)],
      Alts [Seq [stri ''m'', Cls (fold_class 0x16F), stri ''j'', Plus (Cls cls_s), Plus (Cls cls_wi),
                 Plus (Cls cls_s), stri ''je''],
            Seq [stri ''je'', Plus (Cls cls_s), stri ''m'', Cls (fold_class 0x16F), stri ''j'']],
      Alts [Seq [stri ''my'', Plus (Cls cls_s), Plus (Cls cls_wi), Plus (Cls cls_s), stri ''is''],
            Seq [stri ''is'', Plus (Cls cls_s), stri ''my'']],
      Alts [stri ''always'', stri ''never'', stri ''important'']]"

text \<open>The number of runes of the text between U+1F300 and U+1F9FF.\<close>

definition emojiCount :: "string \<Rightarrow> nat" where
  "emojiCount text = foldl (\<lambda>n r. if r \<ge> 0x1F300 \<and> r \<le> 0x1F9FF then n + 1 else n) 0 (runes text)"

definition ShouldCapture :: "string \<Rightarrow> bool" where
  "ShouldCapture text =
     (if length text < 10 \<or> length text > 500 then False
      else if Contains text ''<relevant-memories>'' then False
      else if HasPrefix text ''<'' \<and> Contains text ''</'' then False
      else if emojiCount text > 3 then False
      else list_ex (\<lambda>trigger. MatchString trigger text) triggers)"

text \<open>The patterns of \<open>DetectCategory\<close>:
  \<^verbatim>\<open>(?i)prefer|rad[U+0161]i|like|love|hate|want\<close>,
  \<^verbatim>\<open>(?i)decided|rozhodli|will use|budeme\<close>,
  \<^verbatim>\<open>(?i)\+\d{10,}|@[\w.-]+\.\w+|is called|jmenuje se\<close>,
  \<^verbatim>\<open>(?i)is|are|has|have|je|m[U+00E1]|jsou\<close>.\<close>

definition re_preference :: re where
  "re_preference = Alts [stri ''prefer'', Seq [stri ''rad'', Cls (fold_class 0x161), stri ''i''],
                         stri ''like'', stri ''love'', stri ''hate'', stri ''want'']"

definition re_decision :: re where
  "re_decision = Alts [stri ''decided'', stri ''rozhodli'', stri ''will use'', stri ''budeme'']"

definition re_entity :: re where
  "re_entity = Alts [Seq [Lit 0x2B, RepMin 10 (Cls cls_d)],
                     Seq [Lit 0x40, Plus (Cls (cls_wi @ [(0x2E, 0x2E), (0x2D, 0x2D)])), Lit 0x2E,
                          Plus (Cls cls_wi)],
                     stri ''is called'', stri ''jmenuje se'']"

definition re_fact :: re where
  "re_fact = Alts [stri ''is'', stri ''are'', stri ''has'', stri ''have'', stri ''je'',
                   Seq [stri ''m'', Cls (fold_class 0xE1)], stri ''jsou'']"

definition DetectCategory :: "string \<Rightarrow> string" where
  "DetectCategory text =
     (let lower = ToLower text
      in if MatchString re_preference lower then ''preference''
         else if MatchString re_decision lower then ''decision''
         else if MatchString re_entity lower then ''entity''
         else if MatchString re_fact lower then ''fact''
         else ''other'')"

text \<open>The pattern \<^verbatim>\<open>(?i)always|never\<close> of \<open>Capture\<close>.\<close>

definition re_always_never :: re where
  "re_always_never = Alts [stri ''always'', stri ''never'']"

text \<open>\<open>Capture\<close>: the returned pair, where \<open>Inr None\<close> is \<open>nil, nil\<close>, and the store after
  the call.\<close>

definition Capture ::
  "MemoryStore \<Rightarrow> string \<Rightarrow> nat \<Rightarrow> string \<Rightarrow> string \<Rightarrow> (error + MemoryEntry option) \<times> MemoryStore" where
  "Capture store new_id now text sessionKey =
     (if \<not> ShouldCapture text then (Inr None, store)
      else
        let category = DetectCategory text;
            importance = (0.5::real);
            importance = (if Contains (ToLower text) ''important'' then 0.8 else importance);
            importance = (if MatchString re_always_never text then 0.7 else importance)
        in case Store store new_id now text importance category sessionKey of
             (Inl err, s') \<Rightarrow> (Inl err, s')
           | (Inr entry, s') \<Rightarrow> (Inr (Some entry), s'))"

text \<open>The stores that the operations of the package produce from a new store.\<close>

inductive reachable :: "MemoryStore \<Rightarrow> bool" where
  new: "reachable (NewMemoryStore cfg emb)"
| store: "reachable s \<Longrightarrow> reachable (snd (Store s new_id now text importance category sessionKey))"
| delete: "reachable s \<Longrightarrow> reachable (snd (Delete s ident))"

section \<open>Notions for stating the properties\<close>

text \<open>The result that the scoring loop makes of a row.\<close>

definition mk_result :: "real list \<Rightarrow> MemoryEntry \<Rightarrow> MemorySearchResult" where
  "mk_result queryVector entry = \<lparr> Entry = entry, Score = cosineSimilarity queryVector (Vector entry) \<rparr>"

text \<open>The limit and the minimum score that \<open>Search\<close> works with after its first two
  statements, and the scored rows of the candidate window that reach the minimum score, in the
  order of the window.\<close>

definition limit_in_force :: "MemoryStore \<Rightarrow> int \<Rightarrow> int" where
  "limit_in_force s limit = (if limit \<le> 0 then MaxResults (config s) else limit)"

definition minScore_in_force :: "MemoryStore \<Rightarrow> real \<Rightarrow> real" where
  "minScore_in_force s minScore = (if minScore \<le> 0 then MinScore (config s) else minScore)"

definition survivors :: "MemoryStore \<Rightarrow> real list \<Rightarrow> real \<Rightarrow> MemorySearchResult list" where
  "survivors s queryVector minScore =
     map (mk_result queryVector)
       (filter (\<lambda>e. minScore_in_force s minScore \<le> cosineSimilarity queryVector (Vector e))
          (candidate_window s))"

text \<open>
  A store for the examples: a remote provider that answers every text with the vector
  \<open>(1, 0)\<close>, but the text of the duplicated memory with \<open>(3, 4)\<close>, on a machine that does
  not round; and the store after three calls of \<open>Store\<close>, the last two with one text.
\<close>

definition example_post :: "string \<Rightarrow> http_outcome" where
  "example_post text =
     (if text = ''User prefers dark roast coffee'' then Response 200 (Some ([3, 4] # []))
      else Response 200 (Some ([1, 0] # [])))"

definition example_store :: MemoryStore where
  "example_store = NewMemoryStore \<lparr>MinScore = 0.5, MaxResults = 5\<rparr> (Embed exact_arith (OpenAI example_post))"

definition example_store3 :: MemoryStore where
  "example_store3 =
     snd (Store
       (snd (Store
         (snd (Store example_store ''0b0e7a52-3c1b-4f6e-9a51-6f2d1c0e8a01'' 1
                 ''coffee beans'' 0.5 ''fact'' ''s1''))
         ''1c1f8b63-4d2c-4a7f-8b62-7a3e2d1f9b02'' 2
         ''User prefers dark roast coffee'' 0.5 ''preference'' ''s1''))
       ''2d2a9c74-5e3d-4b8a-9c73-8b4f3e2a0c03'' 3
       ''User prefers dark roast coffee'' 0.5 ''preference'' ''s1'')"

text \<open>One step of the loop of \<open>SimpleEmbedder.Embed\<close> over the map \<open>wordCount\<close>, for a
  vocabulary \<open>voc\<close> and the term frequency \<open>tf\<close> of each word.\<close>

definition tf_step :: "(string \<rightharpoonup> nat) \<Rightarrow> (string \<Rightarrow> real) \<Rightarrow> real list \<Rightarrow> string \<Rightarrow> real list" where
  "tf_step voc tf vector word = (case voc word of Some idx \<Rightarrow> vector[idx := tf word] | None \<Rightarrow> vector)"


text \<open>The norm that \<open>normalizeVector\<close> computes for a vector, on a machine with the arithmetic
  \<open>m\<close>.\<close>

definition computed_norm :: "float32_arith \<Rightarrow> real list \<Rightarrow> xfloat" where
  "computed_norm m v = fnorm m (foldl (fsqadd m) (Fin 0) v)"

text \<open>
  \<open>rounds_ok m u v\<close>: on the vector \<open>v\<close>, each \<open>float32\<close> operation of \<open>normalizeVector\<close>
  gives a finite value near the exact one, \<open>u\<close> bounding the relative error of one rounding:
  each new value of \<open>sum\<close> lies within the factors \<open>(1 - u)\<^sup>2\<close> and \<open>(1 + u)\<^sup>2\<close> of the exact
  \<open>sum + x * x\<close> (a product and a sum are rounded); the norm lies within these factors of the
  exact square root of \<open>sum\<close> (the root is rounded to \<open>float64\<close> and then to \<open>float32\<close>), which
  is stated on the squares; each quotient has a relative error of at most \<open>u\<close>. An operation
  that rounds in the normal range of \<open>float32\<close> does so with \<open>u = 1 / 2 ^ 24\<close>; one that underflows
  or overflows does not.
\<close>

fun sum_rounds_ok :: "float32_arith \<Rightarrow> real \<Rightarrow> xfloat \<Rightarrow> real list \<Rightarrow> bool" where
  "sum_rounds_ok m u acc [] = True"
| "sum_rounds_ok m u acc (x # xs) =
     (case (acc, fsqadd m acc x) of
        (Fin s, Fin s') \<Rightarrow>
          (s + x * x) * (1 - u)\<^sup>2 \<le> s' \<and> s' \<le> (s + x * x) * (1 + u)\<^sup>2 \<and>
          sum_rounds_ok m u (Fin s') xs
      | _ \<Rightarrow> False)"

definition rounds_ok :: "float32_arith \<Rightarrow> real \<Rightarrow> real list \<Rightarrow> bool" where
  "rounds_ok m u v =
     (sum_rounds_ok m u (Fin 0) v \<and>
      (case (foldl (fsqadd m) (Fin 0) v, computed_norm m v) of
         (Fin s, Fin n) \<Rightarrow>
           0 \<le> n \<and> s * (1 - u) ^ 4 \<le> n\<^sup>2 \<and> n\<^sup>2 \<le> s * (1 + u) ^ 4 \<and>
           list_all (\<lambda>x. \<bar>fdiv m x (Fin n) - x / n\<bar> \<le> u * \<bar>x / n\<bar>) v
       | _ \<Rightarrow> False))"



text \<open>
  The canonical textual form of a UUID, in the words of the specification and not of the
  code: 36 characters, hexadecimal digits of either case in the groups 8-4-4-4-12, with a
  hyphen between two groups. The template marks a digit by \<open>x\<close>.
\<close>

definition hex_digit :: "char \<Rightarrow> bool" where
  "hex_digit c \<longleftrightarrow>
     (let n = (of_char c :: nat)
      in (0x30 \<le> n \<and> n \<le> 0x39) \<or> (0x61 \<le> n \<and> n \<le> 0x66) \<or> (0x41 \<le> n \<and> n \<le> 0x46))"

definition uuid_shape :: "char \<Rightarrow> char \<Rightarrow> bool" where
  "uuid_shape c t = (if t = CHR ''-'' then c = CHR ''-'' else hex_digit c)"

definition canonical_uuid_form :: "string \<Rightarrow> bool" where
  "canonical_uuid_form s \<longleftrightarrow> list_all2 uuid_shape s ''xxxxxxxx-xxxx-xxxx-xxxx-xxxxxxxxxxxx''"

text \<open>The character classes that the pattern of \<open>Delete\<close> asks for, position by position,
  and the class for each character of the template.\<close>

definition uuid_classes :: "(rune \<times> rune) list list" where
  "uuid_classes =
     replicate 8 cls_hex @ [(0x2D, 0x2D)] # replicate 4 cls_hex @ [(0x2D, 0x2D)] #
     replicate 4 cls_hex @ [(0x2D, 0x2D)] # replicate 4 cls_hex @ [(0x2D, 0x2D)] #
     replicate 12 cls_hex"

definition shape_class :: "char \<Rightarrow> (rune \<times> rune) list" where
  "shape_class t = (if t = CHR ''-'' then [(0x2D, 0x2D)] else cls_hex)"

text \<open>
  \<open>later ident s s'\<close>: the store \<open>s'\<close> is \<open>s\<close> after any number of calls of \<open>Store\<close> and
  \<open>Delete\<close>, where no call of \<open>Store\<close> draws the identifier \<open>ident\<close> again.
\<close>

inductive later :: "string \<Rightarrow> MemoryStore \<Rightarrow> MemoryStore \<Rightarrow> bool" where
  now: "later ident s s"
| store: "later ident s s' \<Longrightarrow> new_id \<noteq> ident \<Longrightarrow>
          later ident s (snd (Store s' new_id now text importance category sessionKey))"
| delete: "later ident s s' \<Longrightarrow> later ident s (snd (Delete s' other))"

text \<open>The invariants of the two loops of the sort: after the inner loop for \<open>i\<close> has
  passed the indices below \<open>m\<close>, and after the outer loop has passed the indices below
  \<open>m\<close>. Here \<open>rs\<close> is the list at the start of the loop and \<open>r\<close> the list now.\<close>

definition inner_inv :: "nat \<Rightarrow> nat \<Rightarrow> MemorySearchResult list \<Rightarrow> MemorySearchResult list \<Rightarrow> bool" where
  "inner_inv i m rs r \<longleftrightarrow>
     length r = length rs \<and> mset r = mset rs \<and> (\<forall>a<i. r ! a = rs ! a) \<and>
     (\<forall>b<length rs. i \<le> b \<longrightarrow> (\<exists>b'<length rs. i \<le> b' \<and> r ! b = rs ! b')) \<and>
     (\<forall>k. i < k \<and> k < m \<longrightarrow> Score (r ! k) \<le> Score (r ! i))"

definition outer_inv :: "nat \<Rightarrow> MemorySearchResult list \<Rightarrow> MemorySearchResult list \<Rightarrow> bool" where
  "outer_inv m rs r \<longleftrightarrow>
     length r = length rs \<and> mset r = mset rs \<and>
     (\<forall>a<m. \<forall>b<length rs. a < b \<longrightarrow> Score (r ! b) \<le> Score (r ! a))"

section \<open>Vectors: norms and the cosine\<close>

lemma foldl_sq_sum: "foldl (\<lambda>sum x. sum + x * x) a v = a + (\<Sum>x\<leftarrow>v. x * x)" for a :: real
  by (induction v arbitrary: a) simp_all

lemma sum_sq_nonneg: "0 \<le> (\<Sum>x\<leftarrow>v. x * x)" for v :: "real list"
  by (induction v) simp_all

lemma sum_sq_zero: "(\<Sum>x\<leftarrow>v. x * x) = 0 \<Longrightarrow> \<forall>x \<in> set v. x = 0" for v :: "real list"
proof (induction v)
  case Nil
  then show ?case by simp
next
  case (Cons a v)
  have "0 \<le> a * a" by simp
  moreover have "0 \<le> (\<Sum>x\<leftarrow>v. x * x)" by (rule sum_sq_nonneg)
  moreover from Cons.prems have "a * a + (\<Sum>x\<leftarrow>v. x * x) = 0" by simp
  ultimately have "a * a = 0" and "(\<Sum>x\<leftarrow>v. x * x) = 0"
    by linarith+
  with Cons.IH show ?case by simp
qed

lemma sum_list_div_const: "(\<Sum>x\<leftarrow>v. f x / c) = (\<Sum>x\<leftarrow>v. f x) / c" for c :: real
  by (induction v) (simp_all add: add_divide_distrib)


lemma exact_arith_fields [simp]:
  "fsqadd exact_arith (Fin s) x = Fin (s + x * x)"
  "fnorm exact_arith (Fin s) = Fin (sqrt s)"
  "fdiv exact_arith x (Fin n) = x / n"
  by (simp_all add: exact_arith_def)

lemma foldl_exact: "foldl (fsqadd exact_arith) (Fin a) v = Fin (a + (\<Sum>x\<leftarrow>v. x * x))"
  by (induction v arbitrary: a) (simp_all add: add.assoc)

text \<open>In the arithmetic without rounding, \<open>normalizeVector\<close> divides by the L2 norm.\<close>

lemma normalizeVector_exact:
  "normalizeVector exact_arith v =
     (if sqrt (\<Sum>x\<leftarrow>v. x * x) = 0 then v else map (\<lambda>x. x / sqrt (\<Sum>x\<leftarrow>v. x * x)) v)"
  by (simp add: normalizeVector_def foldl_exact)

lemma sqrt_25: "sqrt 25 = 5"
  by (rule real_sqrt_unique) simp_all

lemma normalize_3_4: "normalizeVector exact_arith [3, 4] = [3 / 5, 4 / 5]"
  by (simp add: normalizeVector_exact sqrt_25)

lemma normalize_1_0: "normalizeVector exact_arith [1, 0] = [1, 0]"
  by (simp add: normalizeVector_exact)




section \<open>The sort of Search\<close>

lemma swap_step_length [simp]: "length (swap_step i rs j) = length rs"
  by (simp add: swap_step_def)

lemma swap_step_mset: "i < length rs \<Longrightarrow> j < length rs \<Longrightarrow> mset (swap_step i rs j) = mset rs"
  by (simp add: swap_step_def mset_swap)

lemma swap_step_nth_below: "a < i \<Longrightarrow> i < j \<Longrightarrow> swap_step i rs j ! a = rs ! a"
  by (simp add: swap_step_def)

lemma swap_step_nth_from:
  assumes "i < j" "j < length rs" "b < length rs" "i \<le> b"
  shows "\<exists>b'<length rs. i \<le> b' \<and> swap_step i rs j ! b = rs ! b'"
proof (cases "Score (rs ! j) > Score (rs ! i)")
  case False
  with assms show ?thesis by (auto simp: swap_step_def)
next
  case True
  consider "b = i" | "b = j" | "b \<noteq> i" "b \<noteq> j" by blast
  then show ?thesis
  proof cases
    case 1
    with True assms have "swap_step i rs j ! b = rs ! j" by (simp add: swap_step_def)
    with assms show ?thesis by (intro exI [of _ j]) simp
  next
    case 2
    with True assms have "swap_step i rs j ! b = rs ! i" by (simp add: swap_step_def)
    with assms show ?thesis by (intro exI [of _ i]) simp
  next
    case 3
    with True assms have "swap_step i rs j ! b = rs ! b" by (simp add: swap_step_def)
    with assms show ?thesis by (intro exI [of _ b]) simp
  qed
qed

lemma inner_inv_step:
  assumes inv: "inner_inv i m rs r" and im: "i < m" and ml: "m < length rs"
  shows "inner_inv i (Suc m) rs (swap_step i r m)"
proof -
  from inv have len: "length r = length rs" and ms: "mset r = mset rs"
    and below: "\<forall>a<i. r ! a = rs ! a"
    and src: "\<forall>b<length rs. i \<le> b \<longrightarrow> (\<exists>b'<length rs. i \<le> b' \<and> r ! b = rs ! b')"
    and mx: "\<forall>k. i < k \<and> k < m \<longrightarrow> Score (r ! k) \<le> Score (r ! i)"
    by (simp_all add: inner_inv_def)
  let ?r = "swap_step i r m"
  have 1: "length ?r = length rs" using len by simp
  have 2: "mset ?r = mset rs" using swap_step_mset [of i r m] im ml len ms by simp
  have 3: "\<forall>a<i. ?r ! a = rs ! a" using below im by (simp add: swap_step_nth_below)
  have 4: "\<forall>b<length rs. i \<le> b \<longrightarrow> (\<exists>b'<length rs. i \<le> b' \<and> ?r ! b = rs ! b')"
  proof (intro allI impI)
    fix b assume b: "b < length rs" and ib: "i \<le> b"
    from swap_step_nth_from [of i m r b] im ml len b ib
    obtain b1 where b1: "b1 < length rs" "i \<le> b1" "?r ! b = r ! b1" by auto
    from src b1 obtain b2 where "b2 < length rs" "i \<le> b2" "r ! b1 = rs ! b2" by blast
    with b1 show "\<exists>b'<length rs. i \<le> b' \<and> ?r ! b = rs ! b'" by auto
  qed
  have 5: "\<forall>k. i < k \<and> k < Suc m \<longrightarrow> Score (?r ! k) \<le> Score (?r ! i)"
  proof (intro allI impI)
    fix k assume k: "i < k \<and> k < Suc m"
    show "Score (?r ! k) \<le> Score (?r ! i)"
    proof (cases "Score (r ! m) > Score (r ! i)")
      case False
      then have eq: "?r = r" by (simp add: swap_step_def)
      show ?thesis
      proof (cases "k = m")
        case True with False eq show ?thesis by simp
      next
        case F: False
        with k mx eq show ?thesis by simp
      qed
    next
      case True
      have ri: "?r ! i = r ! m" using True im ml len by (simp add: swap_step_def)
      show ?thesis
      proof (cases "k = m")
        case km: True
        then have "?r ! k = r ! i" using True im ml len by (simp add: swap_step_def)
        with ri True show ?thesis by simp
      next
        case F: False
        with k have "k < m" by simp
        then have "?r ! k = r ! k" using True k im ml len by (simp add: swap_step_def)
        moreover from mx k \<open>k < m\<close> have "Score (r ! k) \<le> Score (r ! i)" by simp
        ultimately show ?thesis using ri True by simp
      qed
    qed
  qed
  from 1 2 3 4 5 show ?thesis by (simp add: inner_inv_def)
qed

lemma inner_inv_upto:
  assumes "i < length rs" "m \<le> length rs"
  shows "inner_inv i m rs (foldl (swap_step i) rs [Suc i..<m])"
  using assms(2)
proof (induction m)
  case 0
  show ?case by (auto simp: inner_inv_def)
next
  case (Suc m)
  show ?case
  proof (cases "i < m")
    case False
    then have "[Suc i..<Suc m] = []" by simp
    then show ?thesis using False by (auto simp: inner_inv_def)
  next
    case True
    then have "[Suc i..<Suc m] = [Suc i..<m] @ [m]" by simp
    moreover from Suc have "inner_inv i m rs (foldl (swap_step i) rs [Suc i..<m])" by simp
    ultimately show ?thesis
      using inner_inv_step [of i m rs] True Suc.prems by simp
  qed
qed

lemma inner_loop_inv: "i < length rs \<Longrightarrow> inner_inv i (length rs) rs (inner_loop rs i)"
  using inner_inv_upto [of i rs "length rs"] by (simp add: inner_loop_def)

lemma outer_inv_step:
  assumes inv: "outer_inv m rs r" and ml: "m < length rs"
  shows "outer_inv (Suc m) rs (inner_loop r m)"
proof -
  from inv have len: "length r = length rs" and ms: "mset r = mset rs"
    and srt: "\<forall>a<m. \<forall>b<length rs. a < b \<longrightarrow> Score (r ! b) \<le> Score (r ! a)"
    by (simp_all add: outer_inv_def)
  let ?r = "inner_loop r m"
  from inner_loop_inv [of m r] ml len have ii: "inner_inv m (length r) r ?r" by simp
  then have l': "length ?r = length r" and m': "mset ?r = mset r"
    and below: "\<forall>a<m. ?r ! a = r ! a"
    and src: "\<forall>b<length r. m \<le> b \<longrightarrow> (\<exists>b'<length r. m \<le> b' \<and> ?r ! b = r ! b')"
    and mx: "\<forall>k. m < k \<and> k < length r \<longrightarrow> Score (?r ! k) \<le> Score (?r ! m)"
    by (simp_all add: inner_inv_def)
  have "\<forall>a<Suc m. \<forall>b<length rs. a < b \<longrightarrow> Score (?r ! b) \<le> Score (?r ! a)"
  proof (intro allI impI)
    fix a b assume a: "a < Suc m" and b: "b < length rs" and ab: "a < b"
    show "Score (?r ! b) \<le> Score (?r ! a)"
    proof (cases "a = m")
      case True
      with mx ab b len show ?thesis by simp
    next
      case False
      with a have am: "a < m" by simp
      then have ra: "?r ! a = r ! a" using below by simp
      show ?thesis
      proof (cases "b < m")
        case True
        then have "?r ! b = r ! b" using below by simp
        with ra srt am b ab show ?thesis by simp
      next
        case F: False
        then have "m \<le> b" by simp
        with src b len obtain b' where b': "b' < length r" "m \<le> b'" "?r ! b = r ! b'" by auto
        with am have "a < b'" by simp
        with srt am b' len have "Score (r ! b') \<le> Score (r ! a)" by simp
        with ra b' show ?thesis by simp
      qed
    qed
  qed
  with l' m' len ms show ?thesis by (simp add: outer_inv_def)
qed

lemma outer_inv_upto: "m \<le> length rs \<Longrightarrow> outer_inv m rs (foldl inner_loop rs [0..<m])"
proof (induction m)
  case 0
  show ?case by (simp add: outer_inv_def)
next
  case (Suc m)
  then have "outer_inv m rs (foldl inner_loop rs [0..<m])" by simp
  from outer_inv_step [OF this] Suc.prems show ?case by simp
qed

lemma sort_results_inv: "outer_inv (length rs - 1) rs (sort_results rs)"
  using outer_inv_upto [of "length rs - 1" rs] by (simp add: sort_results_def)

lemma sort_results_length [simp]: "length (sort_results rs) = length rs"
  using sort_results_inv [of rs] by (simp add: outer_inv_def)

lemma sort_results_mset: "mset (sort_results rs) = mset rs"
  using sort_results_inv [of rs] by (simp add: outer_inv_def)

lemma sort_results_set: "set (sort_results rs) = set rs"
  using sort_results_mset [of rs] by (metis set_mset_mset)

lemma sort_results_sorted: "sorted_wrt (\<lambda>x y. Score x \<ge> Score y) (sort_results rs)"
proof -
  from sort_results_inv [of rs]
  have srt: "\<forall>a<length rs - 1. \<forall>b<length rs. a < b \<longrightarrow> Score (sort_results rs ! b) \<le> Score (sort_results rs ! a)"
    by (simp add: outer_inv_def)
  show ?thesis
  proof (subst sorted_wrt_iff_nth_less, intro allI impI)
    fix i j assume "i < j" "j < length (sort_results rs)"
    then have "i < length rs - 1" "j < length rs" by simp_all
    with srt \<open>i < j\<close> show "Score (sort_results rs ! j) \<le> Score (sort_results rs ! i)" by simp
  qed
qed

section \<open>Store: failure of the embedder, and the category that is written\<close>

lemma isValidCategory_iff: "isValidCategory s category \<longleftrightarrow> category \<in> set (categories s)"
  by (auto simp: isValidCategory_def list_ex_iff)

lemma categories_NewMemoryStore [simp]: "categories (NewMemoryStore cfg emb) = MemoryCategories"
  by (simp add: NewMemoryStore_def)

lemma db_NewMemoryStore [simp]: "db (NewMemoryStore cfg emb) = []"
  by (simp add: NewMemoryStore_def)

lemma embedder_NewMemoryStore [simp]: "embedder (NewMemoryStore cfg emb) = emb"
  by (simp add: NewMemoryStore_def)

lemma config_NewMemoryStore [simp]: "config (NewMemoryStore cfg emb) = cfg"
  by (simp add: NewMemoryStore_def)

lemma Store_unchanged_fields:
  "categories (snd (Store s new_id now text importance category sessionKey)) = categories s"
  "embedder (snd (Store s new_id now text importance category sessionKey)) = embedder s"
  "config (snd (Store s new_id now text importance category sessionKey)) = config s"
  by (auto simp: Store_def Let_def split: sum.splits)

lemma Delete_unchanged_fields:
  "categories (snd (Delete s ident)) = categories s"
  "embedder (snd (Delete s ident)) = embedder s"
  "config (snd (Delete s ident)) = config s"
  by (auto simp: Delete_def Let_def)

lemma reachable_categories: "reachable s \<Longrightarrow> categories s = MemoryCategories"
  by (induction rule: reachable.induct) (simp_all add: Store_unchanged_fields Delete_unchanged_fields)

lemma Store_Inr:
  assumes "Store s new_id now text importance category sessionKey = (Inr entry, s')"
  shows "\<exists>vector. embedder s text = Inr vector \<and>
           entry = \<lparr> ID = new_id, Text = text, Vector = vector, Importance = importance,
                     Category = (if category \<in> set (categories s) then category else ''other''),
                     SessionKey = sessionKey, CreatedAt = now \<rparr> \<and>
           new_id \<notin> ID ` set (db s) \<and> s' = s\<lparr> db := db s @ [entry] \<rparr>"
  using assms
  by (auto simp: Store_def Let_def isValidCategory_iff list_ex_iff split: sum.splits if_splits)

lemma Store_db_cases:
  "db (snd (Store s new_id now text importance category sessionKey)) = db s \<or>
   (\<exists>entry. fst (Store s new_id now text importance category sessionKey) = Inr entry \<and>
      db (snd (Store s new_id now text importance category sessionKey)) = db s @ [entry])"
  by (auto simp: Store_def Let_def split: sum.splits)

lemma Delete_db: "db (snd (Delete s ident)) = db s \<or> db (snd (Delete s ident)) = filter (\<lambda>e. ID e \<noteq> ident) (db s)"
  by (auto simp: Delete_def Let_def)

lemma other_in_MemoryCategories: "''other'' \<in> set MemoryCategories"
  by (simp add: MemoryCategories_def)

lemma reachable_db_categories:
  "reachable s \<Longrightarrow> \<forall>e \<in> set (db s). Category e \<in> set MemoryCategories"
proof (induction rule: reachable.induct)
  case (new cfg emb)
  show ?case by simp
next
  case (store s new_id now tx importance category sessionKey)
  let ?r = "Store s new_id now tx importance category sessionKey"
  from Store_db_cases [of s new_id now tx importance category sessionKey]
  show ?case
  proof
    assume "db (snd ?r) = db s"
    with store.IH show ?thesis by simp
  next
    assume "\<exists>entry. fst ?r = Inr entry \<and> db (snd ?r) = db s @ [entry]"
    then obtain entry where e: "fst ?r = Inr entry" and d: "db (snd ?r) = db s @ [entry]"
      by blast
    from e have "?r = (Inr entry, snd ?r)"
      by (metis prod.collapse)
    from Store_Inr [OF this] reachable_categories [OF store.hyps]
    have "Category entry \<in> set MemoryCategories"
      by (auto simp: other_in_MemoryCategories)
    with store.IH d show ?thesis by simp
  qed
next
  case (delete s ident)
  from Delete_db [of s ident] delete.IH show ?case
    by auto
qed

text \<open>
  C7. Whenever the embedder of the store fails on the text, \<open>Store\<close> returns the error
  \<open>EmbeddingFailure\<close> around the embedder's error, and the store after the call is the store
  before it: nothing is written.
\<close>

theorem Store_embedding_failure_writes_nothing:
  assumes "embedder s text = Inl err"
  shows "Store s new_id now text importance category sessionKey = (Inl (EmbeddingFailure err), s)"
  using assms by (simp add: Store_def)

text \<open>An instance: a remote provider whose request fails in transport, on a store that
  holds nothing.\<close>

theorem Store_embedding_failure_witness:
  "embedder (NewMemoryStore \<lparr>MinScore = 0.5, MaxResults = 5\<rparr>
               (Embed exact_arith (OpenAI (\<lambda>_. TransportError ''connection refused'')))) ''I like tea''
     = Inl ''connection refused'' \<and>
   Store (NewMemoryStore \<lparr>MinScore = 0.5, MaxResults = 5\<rparr>
            (Embed exact_arith (OpenAI (\<lambda>_. TransportError ''connection refused''))))
         ''7d444840-9dc0-11d1-b245-5ffdce74fad2'' 1 ''I like tea'' 0.5 ''preference'' ''s1''
     = (Inl (EmbeddingFailure ''connection refused''),
        NewMemoryStore \<lparr>MinScore = 0.5, MaxResults = 5\<rparr>
          (Embed exact_arith (OpenAI (\<lambda>_. TransportError ''connection refused''))))"
proof -
  have h: "embedder (NewMemoryStore \<lparr>MinScore = 0.5, MaxResults = 5\<rparr>
               (Embed exact_arith (OpenAI (\<lambda>_. TransportError ''connection refused'')))) ''I like tea''
     = Inl ''connection refused''"
    by (simp add: OpenAI_Embed_def)
  from h Store_embedding_failure_writes_nothing [OF h] show ?thesis
    by simp
qed

text \<open>
  C8. In every store that the package's operations produce from a new store, each row has a
  category of the fixed list; and a call of \<open>Store\<close> on such a store with a category outside
  the list, when it writes, appends a row whose category is \<open>other\<close>.
\<close>

theorem Store_category_coerced:
  assumes "reachable s"
  shows "(\<forall>e \<in> set (db s). Category e \<in> set MemoryCategories) \<and>
         (\<forall>new_id now text importance category sessionKey entry s'.
            Store s new_id now text importance category sessionKey = (Inr entry, s') \<longrightarrow>
            category \<notin> set MemoryCategories \<longrightarrow>
            Category entry = ''other'' \<and> db s' = db s @ [entry])"
proof
  show "\<forall>e \<in> set (db s). Category e \<in> set MemoryCategories"
    by (rule reachable_db_categories [OF assms])
next
  show "\<forall>new_id now text importance category sessionKey entry s'.
            Store s new_id now text importance category sessionKey = (Inr entry, s') \<longrightarrow>
            category \<notin> set MemoryCategories \<longrightarrow>
            Category entry = ''other'' \<and> db s' = db s @ [entry]"
  proof (intro allI impI)
    fix new_id now tx importance category sessionKey entry s'
    assume st: "Store s new_id now tx importance category sessionKey = (Inr entry, s')"
      and bad: "category \<notin> set MemoryCategories"
    from Store_Inr [OF st] reachable_categories [OF assms] bad
    show "Category entry = ''other'' \<and> db s' = db s @ [entry]"
      by auto
  qed
qed

text \<open>An instance: the new store with a remote provider, and the call of the specification's
  example, \<open>Store(text, imp, "bogus-category", key)\<close>.\<close>

theorem Store_category_coerced_witness:
  "reachable (NewMemoryStore \<lparr>MinScore = 0.5, MaxResults = 5\<rparr>
                (Embed exact_arith (OpenAI (\<lambda>_. Response 200 (Some ([1, 0] # [])))))) \<and>
   ''bogus-category'' \<notin> set MemoryCategories \<and>
   (case Store (NewMemoryStore \<lparr>MinScore = 0.5, MaxResults = 5\<rparr>
                  (Embed exact_arith (OpenAI (\<lambda>_. Response 200 (Some ([1, 0] # []))))))
               ''7d444840-9dc0-11d1-b245-5ffdce74fad2'' 1 ''I like tea'' 0.5 ''bogus-category'' ''s1''
    of (Inr entry, s') \<Rightarrow> Category entry = ''other'' \<and> db s' = [entry]
     | (Inl err, s') \<Rightarrow> False)"
proof -
  let ?s = "NewMemoryStore \<lparr>MinScore = 0.5, MaxResults = 5\<rparr>
              (Embed exact_arith (OpenAI (\<lambda>_. Response 200 (Some ([1, 0] # [])))))"
  let ?r = "Store ?s ''7d444840-9dc0-11d1-b245-5ffdce74fad2'' 1 ''I like tea'' 0.5
              ''bogus-category'' ''s1''"
  have r: "reachable ?s"
    by (rule reachable.new)
  have bad: "''bogus-category'' \<notin> set MemoryCategories"
    by (simp add: MemoryCategories_def)
  obtain entry s' where st: "?r = (Inr entry, s')"
    by (simp add: Store_def OpenAI_Embed_def Let_def)
  from Store_category_coerced [OF r] st bad
  have "Category entry = ''other'' \<and> db s' = db ?s @ [entry]"
    by blast
  with r bad st show ?thesis
    by simp
qed

section \<open>The recall tool and its parameter \<open>category\<close>\<close>

text \<open>
  C10. \<open>MemoryTool.Execute\<close> reads the entries \<open>query\<close> and \<open>limit\<close> of its parameters and
  no other: on one store, two parameter maps that agree on every key but \<open>category\<close> give
  the same result.
\<close>

theorem Execute_ignores_category:
  assumes "\<forall>k. k \<noteq> ''category'' \<longrightarrow> params1 k = params2 k"
  shows "Execute store params1 = Execute store params2"
proof -
  from assms have q: "params1 ''query'' = params2 ''query''"
    and l: "params1 ''limit'' = params2 ''limit''"
    by simp_all
  show ?thesis
    unfolding Execute_def q l by (rule refl)
qed

text \<open>An instance: a store whose one row has the category \<open>preference\<close>. The recall with
  \<open>category = "decision"\<close> gives what the recall without a category gives, and lists the
  row.\<close>

theorem Execute_ignores_category_witness:
  "Execute
     \<lparr> db = [\<lparr> ID = ''7d444840-9dc0-11d1-b245-5ffdce74fad2'', Text = ''I prefer dark roast coffee'',
              Vector = [1, 0], Importance = 0.5, Category = ''preference'', SessionKey = ''s1'',
              CreatedAt = 1 \<rparr>],
       embedder = Embed exact_arith (OpenAI (\<lambda>_. Response 200 (Some ([1, 0] # [])))),
       config = \<lparr>MinScore = 0.5, MaxResults = 5\<rparr>, categories = MemoryCategories \<rparr>
     [''query'' \<mapsto> JString ''coffee'', ''category'' \<mapsto> JString ''decision'']
   = Execute
     \<lparr> db = [\<lparr> ID = ''7d444840-9dc0-11d1-b245-5ffdce74fad2'', Text = ''I prefer dark roast coffee'',
              Vector = [1, 0], Importance = 0.5, Category = ''preference'', SessionKey = ''s1'',
              CreatedAt = 1 \<rparr>],
       embedder = Embed exact_arith (OpenAI (\<lambda>_. Response 200 (Some ([1, 0] # [])))),
       config = \<lparr>MinScore = 0.5, MaxResults = 5\<rparr>, categories = MemoryCategories \<rparr>
     [''query'' \<mapsto> JString ''coffee''] \<and>
   Execute
     \<lparr> db = [\<lparr> ID = ''7d444840-9dc0-11d1-b245-5ffdce74fad2'', Text = ''I prefer dark roast coffee'',
              Vector = [1, 0], Importance = 0.5, Category = ''preference'', SessionKey = ''s1'',
              CreatedAt = 1 \<rparr>],
       embedder = Embed exact_arith (OpenAI (\<lambda>_. Response 200 (Some ([1, 0] # [])))),
       config = \<lparr>MinScore = 0.5, MaxResults = 5\<rparr>, categories = MemoryCategories \<rparr>
     [''query'' \<mapsto> JString ''coffee'', ''category'' \<mapsto> JString ''decision'']
   = \<lparr> ForLLM = [Str ''Found '', Dec 1, Str '' relevant memories:\<newline>\<newline>'',
                 Dec 1, Str ''. ['', Str ''preference'', Str ''] (score: '', Fix2 1, Str '') '',
                 Str ''I prefer dark roast coffee'', Str ''\<newline>''],
       ForUser = [], Err = None \<rparr>"
proof -
  have h: "\<forall>k. k \<noteq> ''category'' \<longrightarrow>
             [''query'' \<mapsto> JString ''coffee'', ''category'' \<mapsto> JString ''decision''] k
             = [''query'' \<mapsto> JString ''coffee''] k"
    by simp
  show ?thesis
    apply (rule conjI)
     apply (rule Execute_ignores_category [OF h])
    apply (simp add: Execute_def Search_def OpenAI_Embed_def normalize_1_0 Let_def
        candidate_window_def score_rows_def cosineSimilarity_def sort_results_def
        format_results_def swap_step_def inner_loop_def)
    done
qed

section \<open>Search\<close>

lemma score_rows_foldl:
  "foldl (\<lambda>results entry.
              let score = cosineSimilarity q (Vector entry)
              in if score \<ge> m then results @ [\<lparr> Entry = entry, Score = score \<rparr>]
                 else results) acc rows
   = acc @ map (mk_result q) (filter (\<lambda>e. m \<le> cosineSimilarity q (Vector e)) rows)"
  by (induction rows arbitrary: acc) (simp_all add: Let_def mk_result_def)

lemma score_rows_eq:
  "score_rows q m rows = map (mk_result q) (filter (\<lambda>e. m \<le> cosineSimilarity q (Vector e)) rows)"
  by (simp add: score_rows_def score_rows_foldl)

lemma Search_eq:
  assumes "embedder s query = Inr queryVector"
  shows "Search s query limit minScore =
     (let results = sort_results (survivors s queryVector minScore)
      in if int (length results) > limit_in_force s limit
         then (if limit_in_force s limit < 0 then Inl (Panic ''slice bounds out of range'')
               else Inr (take (nat (limit_in_force s limit)) results))
         else Inr results)"
  using assms
  by (simp add: Search_def Let_def score_rows_eq survivors_def limit_in_force_def minScore_in_force_def)

lemma Search_Inr:
  assumes "Search s query limit minScore = Inr results"
  shows "\<exists>queryVector. embedder s query = Inr queryVector \<and>
           results = take (nat (limit_in_force s limit)) (sort_results (survivors s queryVector minScore))"
proof (cases "embedder s query")
  case (Inl err)
  with assms show ?thesis by (simp add: Search_def Let_def)
next
  case (Inr queryVector)
  from assms show ?thesis
    unfolding Search_eq [OF Inr] Let_def
    by (auto simp: Inr split: if_splits)
qed

lemma sort_results_Nil [simp]: "sort_results [] = []"
  by (simp add: sort_results_def)

subsection \<open>The example store, evaluated\<close>

lemma example_embed:
  "embedder example_store3 text =
     (if text = ''User prefers dark roast coffee'' then Inr [3 / 5, 4 / 5] else Inr [1, 0])"
  by (simp add: example_store3_def example_store_def Store_unchanged_fields OpenAI_Embed_def
      example_post_def normalize_3_4 normalize_1_0)

lemma example_store3_db:
  "db example_store3 =
     [\<lparr> ID = ''0b0e7a52-3c1b-4f6e-9a51-6f2d1c0e8a01'', Text = ''coffee beans'', Vector = [1, 0],
        Importance = 0.5, Category = ''fact'', SessionKey = ''s1'', CreatedAt = 1 \<rparr>,
      \<lparr> ID = ''1c1f8b63-4d2c-4a7f-8b62-7a3e2d1f9b02'', Text = ''User prefers dark roast coffee'',
        Vector = [3 / 5, 4 / 5], Importance = 0.5, Category = ''preference'', SessionKey = ''s1'',
        CreatedAt = 2 \<rparr>,
      \<lparr> ID = ''2d2a9c74-5e3d-4b8a-9c73-8b4f3e2a0c03'', Text = ''User prefers dark roast coffee'',
        Vector = [3 / 5, 4 / 5], Importance = 0.5, Category = ''preference'', SessionKey = ''s1'',
        CreatedAt = 3 \<rparr>]"
  by (simp add: example_store3_def example_store_def Store_def OpenAI_Embed_def
      example_post_def normalize_3_4 normalize_1_0 Let_def isValidCategory_def MemoryCategories_def)

lemma example_store3_config: "config example_store3 = \<lparr>MinScore = 0.5, MaxResults = 5\<rparr>"
  by (simp add: example_store3_def example_store_def Store_unchanged_fields)

lemma example_window: "map CreatedAt (candidate_window example_store3) = [3, 2, 1]"
  by (simp add: candidate_window_def example_store3_db)

lemma example_search:
  "Search example_store3 ''coffee'' 5 0.5 =
     Inr [\<lparr> Entry = \<lparr> ID = ''0b0e7a52-3c1b-4f6e-9a51-6f2d1c0e8a01'', Text = ''coffee beans'', Vector = [1, 0],
        Importance = 0.5, Category = ''fact'', SessionKey = ''s1'', CreatedAt = 1 \<rparr>, Score = 1 \<rparr>,
      \<lparr> Entry = \<lparr> ID = ''1c1f8b63-4d2c-4a7f-8b62-7a3e2d1f9b02'', Text = ''User prefers dark roast coffee'',
        Vector = [3 / 5, 4 / 5], Importance = 0.5, Category = ''preference'', SessionKey = ''s1'',
        CreatedAt = 2 \<rparr>, Score = 3 / 5 \<rparr>,
      \<lparr> Entry = \<lparr> ID = ''2d2a9c74-5e3d-4b8a-9c73-8b4f3e2a0c03'', Text = ''User prefers dark roast coffee'',
        Vector = [3 / 5, 4 / 5], Importance = 0.5, Category = ''preference'', SessionKey = ''s1'',
        CreatedAt = 3 \<rparr>, Score = 3 / 5 \<rparr>]"
  by (simp add: Search_def example_embed example_store3_config candidate_window_def example_store3_db
      score_rows_def cosineSimilarity_def Let_def sort_results_def inner_loop_def swap_step_def)

subsection \<open>No match is not an error\<close>




subsection \<open>The order of the results\<close>

text \<open>
  C2 as the claim states it fails on the example store. Its candidate window holds the rows
  with \<open>created_at\<close> 3, 2, 1, in this order; the two rows of one text have the score 3/5 and
  the oldest row has the score 1. \<open>Search\<close> returns the row of \<open>created_at\<close> 2 before the
  row of \<open>created_at\<close> 3: among equal scores the older row comes first.
\<close>

theorem Search_ties_not_in_window_order:
  "map CreatedAt (candidate_window example_store3) = [3, 2, 1] \<and>
   (case Search example_store3 ''coffee'' 5 0.5 of
      Inr results \<Rightarrow> map (\<lambda>r. (CreatedAt (Entry r), Score r)) results
    | Inl err \<Rightarrow> [])
   = [(1, 1), (2, 3 / 5), (3, 3 / 5)]"
  unfolding example_window example_search by simp

text \<open>
  C2, amended. The list that \<open>Search\<close> returns is sorted by score, highest first; it is the
  first \<open>limit\<close> elements of a list that is sorted by score and is a rearrangement of the
  scored rows of the candidate window that reach the minimum score. The list is a function of
  the store and the arguments. Nothing is said about the order among equal scores.
\<close>

theorem Search_sorted_by_score:
  assumes "Search s query limit minScore = Inr results"
  shows "sorted_wrt (\<lambda>x y. Score x \<ge> Score y) results \<and>
         (\<exists>queryVector sorted_all.
            embedder s query = Inr queryVector \<and>
            mset sorted_all = mset (survivors s queryVector minScore) \<and>
            sorted_wrt (\<lambda>x y. Score x \<ge> Score y) sorted_all \<and>
            results = take (nat (limit_in_force s limit)) sorted_all)"
proof -
  from Search_Inr [OF assms] obtain queryVector where
    q: "embedder s query = Inr queryVector" and
    r: "results = take (nat (limit_in_force s limit)) (sort_results (survivors s queryVector minScore))"
    by blast
  let ?all = "sort_results (survivors s queryVector minScore)"
  have srt: "sorted_wrt (\<lambda>x y. Score x \<ge> Score y) ?all"
    by (rule sort_results_sorted)
  then have "sorted_wrt (\<lambda>x y. Score x \<ge> Score y) results"
    unfolding r by (rule sorted_wrt_take)
  moreover have "mset ?all = mset (survivors s queryVector minScore)"
    by (rule sort_results_mset)
  ultimately show ?thesis
    using q r srt by blast
qed

text \<open>An instance: the search of the example store.\<close>

theorem Search_sorted_by_score_witness:
  "Search example_store3 ''coffee'' 5 0.5 =
     Inr [\<lparr> Entry = \<lparr> ID = ''0b0e7a52-3c1b-4f6e-9a51-6f2d1c0e8a01'', Text = ''coffee beans'', Vector = [1, 0],
        Importance = 0.5, Category = ''fact'', SessionKey = ''s1'', CreatedAt = 1 \<rparr>, Score = 1 \<rparr>,
      \<lparr> Entry = \<lparr> ID = ''1c1f8b63-4d2c-4a7f-8b62-7a3e2d1f9b02'', Text = ''User prefers dark roast coffee'',
        Vector = [3 / 5, 4 / 5], Importance = 0.5, Category = ''preference'', SessionKey = ''s1'',
        CreatedAt = 2 \<rparr>, Score = 3 / 5 \<rparr>,
      \<lparr> Entry = \<lparr> ID = ''2d2a9c74-5e3d-4b8a-9c73-8b4f3e2a0c03'', Text = ''User prefers dark roast coffee'',
        Vector = [3 / 5, 4 / 5], Importance = 0.5, Category = ''preference'', SessionKey = ''s1'',
        CreatedAt = 3 \<rparr>, Score = 3 / 5 \<rparr>] \<and>
   sorted_wrt (\<lambda>x y. Score x \<ge> Score y)
    [\<lparr> Entry = \<lparr> ID = ''0b0e7a52-3c1b-4f6e-9a51-6f2d1c0e8a01'', Text = ''coffee beans'', Vector = [1, 0],
        Importance = 0.5, Category = ''fact'', SessionKey = ''s1'', CreatedAt = 1 \<rparr>, Score = 1 \<rparr>,
      \<lparr> Entry = \<lparr> ID = ''1c1f8b63-4d2c-4a7f-8b62-7a3e2d1f9b02'', Text = ''User prefers dark roast coffee'',
        Vector = [3 / 5, 4 / 5], Importance = 0.5, Category = ''preference'', SessionKey = ''s1'',
        CreatedAt = 2 \<rparr>, Score = 3 / 5 \<rparr>,
      \<lparr> Entry = \<lparr> ID = ''2d2a9c74-5e3d-4b8a-9c73-8b4f3e2a0c03'', Text = ''User prefers dark roast coffee'',
        Vector = [3 / 5, 4 / 5], Importance = 0.5, Category = ''preference'', SessionKey = ''s1'',
        CreatedAt = 3 \<rparr>, Score = 3 / 5 \<rparr>]"
  using Search_sorted_by_score [OF example_search] example_search
  by blast

section \<open>The embedding providers\<close>

subsection \<open>The vocabulary and the order of the map\<close>

lemma build_vocab_snoc: "build_vocab (ws @ [x]) = (build_vocab ws)(x \<mapsto> length ws)"
  by (simp add: build_vocab_def)

lemma build_vocab_Some: "build_vocab ws w = Some j \<Longrightarrow> j < length ws \<and> ws ! j = w"
proof (induction ws arbitrary: j rule: rev_induct)
  case Nil
  then show ?case by (simp add: build_vocab_def)
next
  case (snoc x ws)
  show ?case
  proof (cases "w = x")
    case True
    with snoc.prems show ?thesis by (auto simp: build_vocab_snoc)
  next
    case False
    with snoc.prems have "build_vocab ws w = Some j" by (simp add: build_vocab_snoc)
    from snoc.IH [OF this] show ?thesis by (simp add: nth_append)
  qed
qed

lemma vocab_New_Some:
  "vocab NewSimpleEmbedder w = Some j \<Longrightarrow> j < sdims NewSimpleEmbedder \<and> commonWords ! j = w"
  using build_vocab_Some [of commonWords w j] by (simp add: NewSimpleEmbedder_def)


lemma tf_step_length [simp]: "length (tf_step voc tf v w) = length v"
  by (simp add: tf_step_def split: option.splits)

lemma tf_fold_length [simp]: "length (foldl (tf_step voc tf) v keys) = length v"
  by (induction keys arbitrary: v) simp_all

lemma tf_step_nth: "j < length v \<Longrightarrow> tf_step voc tf v w ! j = (if voc w = Some j then tf w else v ! j)"
  by (cases "voc w") (simp_all add: tf_step_def nth_list_update)

lemma tf_fold_nth:
  assumes inv: "\<And>w j. voc w = Some j \<Longrightarrow> g j = w" and j: "j < length v"
  shows "foldl (tf_step voc tf) v keys ! j =
           (if g j \<in> set keys \<and> voc (g j) = Some j then tf (g j) else v ! j)"
  using j
proof (induction keys arbitrary: v)
  case Nil
  show ?case by simp
next
  case (Cons w keys)
  have len: "j < length (tf_step voc tf v w)"
    using Cons.prems by simp
  have IH: "foldl (tf_step voc tf) (tf_step voc tf v w) keys ! j =
           (if g j \<in> set keys \<and> voc (g j) = Some j then tf (g j) else tf_step voc tf v w ! j)"
    by (rule Cons.IH [OF len])
  have step: "tf_step voc tf v w ! j = (if voc w = Some j then tf w else v ! j)"
    by (rule tf_step_nth [OF Cons.prems])
  show ?case
  proof (cases "voc w = Some j")
    case True
    then have gw: "g j = w" by (rule inv)
    with True IH step show ?thesis by simp
  next
    case False
    have "\<not> (g j = w \<and> voc (g j) = Some j)" using False by auto
    with False IH step show ?thesis by auto
  qed
qed

lemma tf_fold_set:
  assumes inv: "\<And>w j. voc w = Some j \<Longrightarrow> g j = w" and s: "set keys1 = set keys2"
  shows "foldl (tf_step voc tf) v keys1 = foldl (tf_step voc tf) v keys2"
proof (rule nth_equalityI)
  show "length (foldl (tf_step voc tf) v keys1) = length (foldl (tf_step voc tf) v keys2)"
    by simp
next
  fix i assume "i < length (foldl (tf_step voc tf) v keys1)"
  then have i: "i < length v" by simp
  have a: "foldl (tf_step voc tf) v keys1 ! i =
           (if g i \<in> set keys1 \<and> voc (g i) = Some i then tf (g i) else v ! i)"
    by (rule tf_fold_nth [OF inv i])
  have b: "foldl (tf_step voc tf) v keys2 ! i =
           (if g i \<in> set keys2 \<and> voc (g i) = Some i then tf (g i) else v ! i)"
    by (rule tf_fold_nth [OF inv i])
  show "foldl (tf_step voc tf) v keys1 ! i = foldl (tf_step voc tf) v keys2 ! i"
    by (simp only: a b s)
qed


lemma SimpleEmbed_in_eq:
  "SimpleEmbed_in m e keys text =
     normalizeVector m (foldl (tf_step (vocab e)
        (\<lambda>word. real (count_words (Fields (ToLower text)) word) / real (length (Fields (ToLower text)))))
        (replicate (sdims e) 0) keys)"
  by (simp add: SimpleEmbed_in_def Let_def tf_step_def [abs_def] cong: option.case_cong)

lemma SimpleEmbed_in_order:
  assumes "set keys1 = set keys2"
  shows "SimpleEmbed_in m NewSimpleEmbedder keys1 text = SimpleEmbed_in m NewSimpleEmbedder keys2 text"
proof -
  have inv: "\<And>w j. vocab NewSimpleEmbedder w = Some j \<Longrightarrow> (\<lambda>j. commonWords ! j) j = w"
    using vocab_New_Some by blast
  show ?thesis
    unfolding SimpleEmbed_in_eq
    by (rule arg_cong [where f = "normalizeVector m"]) (rule tf_fold_set [OF inv assms])
qed

subsection \<open>Every provider normalizes its raw embedding\<close>


subsection \<open>The norm of a normalized vector under rounding\<close>

lemma normalizeVector_unchanged: "computed_norm m v = Fin 0 \<Longrightarrow> normalizeVector m v = v"
  by (simp add: normalizeVector_def computed_norm_def)









subsection \<open>Zero vectors\<close>






subsection \<open>The arithmetic \<open>binary32\<close>, evaluated\<close>

lemma binary32_fields:
  "fsqadd binary32 (Fin s) x =
     (case round32 (x * x) of PosInf \<Rightarrow> PosInf | Fin p \<Rightarrow> round32 (s + p))"
  "fsqadd binary32 PosInf x = PosInf"
  "fnorm binary32 (Fin s) = round32 (sqrt64 s)"
  "fnorm binary32 PosInf = PosInf"
  "fdiv binary32 x (Fin n) = (case round32 (x / n) of Fin y \<Rightarrow> y | PosInf \<Rightarrow> x / n)"
  "fdiv binary32 x PosInf = 0"
  by (simp_all add: binary32_def)

lemma binary32_inf:
  "fsqadd binary32 PosInf x = PosInf"
  "fnorm binary32 PosInf = PosInf"
  "fdiv binary32 x PosInf = 0"
  by (simp_all add: binary32_def)

lemmas binary32_eval = binary32_fields
  round32_def exponent_of.simps round_at_def pow2_def rhe_def Let_def
  sqrt64_def sqrt_at_def sqrt_round_def isqrt_from.simps


lemma norm32_0: "fnorm binary32 (Fin 0) = Fin 0"
  by (simp add: binary32_eval)









text \<open>
  Underflow. Both components are the \<open>float32\<close> value nearest to \<open>1e-30\<close>. Their squares
  round to 0, the computed norm is 0, and the vector is returned as it is, far from norm 1.
\<close>

lemma sqadd32_underflow: "fsqadd binary32 (Fin 0) (332307 / 2 ^ 118) = Fin 0"
  by (simp add: binary32_eval)

lemma binary32_underflow:
  "normalizeVector binary32 [332307 / 2 ^ 118, 332307 / 2 ^ 118]
     = [332307 / 2 ^ 118, 332307 / 2 ^ 118] \<and>
   l2norm [332307 / 2 ^ 118, 332307 / 2 ^ 118] < 1 / 10 ^ 29"
proof -
  have "computed_norm binary32 [332307 / 2 ^ 118, 332307 / 2 ^ 118] = Fin 0"
    by (simp add: computed_norm_def sqadd32_underflow [simplified] norm32_0)
  then have a: "normalizeVector binary32 [332307 / 2 ^ 118, 332307 / 2 ^ 118]
     = [332307 / 2 ^ 118, 332307 / 2 ^ 118]"
    by (rule normalizeVector_unchanged)
  have "sqrt (332307 / 2 ^ 118 * (332307 / 2 ^ 118) + 332307 / 2 ^ 118 * (332307 / 2 ^ 118))
          < 1 / 10 ^ 29"
    by (rule real_less_lsqrt) (simp_all add: power_divide)
  then have b: "l2norm [332307 / 2 ^ 118, 332307 / 2 ^ 118] < 1 / 10 ^ 29"
    by (simp add: l2norm_def)
  from a b show ?thesis ..
qed

text \<open>
  A subnormal sum. The component is the \<open>float32\<close> value nearest to \<open>3e-23\<close>; its square
  rounds to the least positive \<open>float32\<close> value, more than half as much again. The
  normalized vector has the norm \<open>0.80\<close>, and the rounding of the square is not within the
  bound of \<open>rounds_ok\<close>.
\<close>

lemma sqadd32_subnormal: "fsqadd binary32 (Fin 0) (2376845 / 2 ^ 96) = Fin (1 / 2 ^ 149)"
  by (simp add: binary32_eval)

lemma norm32_subnormal: "fnorm binary32 (Fin (1 / 2 ^ 149)) = Fin (11863283 / 2 ^ 98)"
  by (simp add: binary32_eval)

lemma div32_subnormal: "fdiv binary32 (2376845 / 2 ^ 96) (Fin (11863283 / 2 ^ 98)) = 6722733 / 8388608"
  by (simp add: binary32_eval)

lemma l2norm_single: "l2norm [a] = \<bar>a\<bar>"
  by (simp add: l2norm_def)

lemma binary32_subnormal:
  "normalizeVector binary32 [2376845 / 2 ^ 96] = [6722733 / 8388608] \<and>
   l2norm [6722733 / 8388608] = 6722733 / 8388608 \<and>
   \<not> rounds_ok binary32 (1 / 2 ^ 24) [2376845 / 2 ^ 96]"
proof (intro conjI)
  show "normalizeVector binary32 [2376845 / 2 ^ 96] = [6722733 / 8388608]"
    by (simp add: normalizeVector_def sqadd32_subnormal [simplified] norm32_subnormal [simplified]
        div32_subnormal [simplified])
  show "l2norm [6722733 / 8388608] = 6722733 / 8388608"
    using l2norm_single [of "6722733 / 8388608"] by simp
  show "\<not> rounds_ok binary32 (1 / 2 ^ 24) [2376845 / 2 ^ 96]"
    by (simp add: rounds_ok_def sqadd32_subnormal [simplified] power_divide)
qed

text \<open>
  Overflow. The components are the \<open>float32\<close> values nearest to \<open>3e19\<close> and \<open>4e19\<close>. The
  first square is beyond the range of \<open>float32\<close>: sum and norm are \<open>+Inf\<close>, and every
  component becomes 0.
\<close>

lemma sqadd32_overflow: "fsqadd binary32 (Fin 0) 30000001041030971392 = PosInf"
  by (simp add: binary32_eval)

lemma binary32_overflow:
  "normalizeVector binary32 [30000001041030971392, 39999999922025791488] = [0, 0] \<and>
   \<not> rounds_ok binary32 (1 / 2 ^ 24) [30000001041030971392, 39999999922025791488]"
  by (simp add: normalizeVector_def rounds_ok_def sqadd32_overflow binary32_inf)

subsection \<open>Evaluation of the string functions, and the claims on the vectors\<close>

lemmas string_eval = ToLower_def runes_def bytes_def unbytes_def EncodeRune_def unicode_ToLower_def
  cont_def RuneError_def char_of_eq_iff

lemma ToLower_ok: "ToLower ''Ok'' = ''ok''"
  by (simp add: string_eval)


lemma ngrams_abcd: "extractNgrams ''aBcd'' 3 = [''abc'', ''bcd'']"
  by (simp add: extractNgrams_def string_eval upt_rec)





text \<open>
  C9. The hash fallback of the local provider is a function of the embedder and the text.
  The vocabulary provider ranges over a Go map, in an order that differs from run to run;
  its vector does not depend on that order. So two \<open>Embed\<close> calls on one text return one
  vector, and two calls of \<open>Store\<close> with one text, on any two stores with that embedder and
  with any other arguments, write rows with one vector.
\<close>

theorem Embed_deterministic:
  assumes "(p1 = Local e None \<and> p2 = Local e None) \<or>
           (p1 = Simple NewSimpleEmbedder order1 \<and> p2 = Simple NewSimpleEmbedder order2 \<and>
            range_order text (order1 text) \<and> range_order text (order2 text))"
  shows "Embed m p1 text = Embed m p2 text \<and>
         (\<forall>s1 s2 id1 id2 now1 now2 imp1 imp2 cat1 cat2 key1 key2 entry1 entry2 s1' s2'.
            embedder s1 = Embed m p1 \<longrightarrow> embedder s2 = Embed m p2 \<longrightarrow>
            Store s1 id1 now1 text imp1 cat1 key1 = (Inr entry1, s1') \<longrightarrow>
            Store s2 id2 now2 text imp2 cat2 key2 = (Inr entry2, s2') \<longrightarrow>
            Vector entry1 = Vector entry2)"
proof -
  have eq: "Embed m p1 text = Embed m p2 text"
    using assms
  proof
    assume "p1 = Local e None \<and> p2 = Local e None"
    then show ?thesis by simp
  next
    assume a: "p1 = Simple NewSimpleEmbedder order1 \<and> p2 = Simple NewSimpleEmbedder order2 \<and>
            range_order text (order1 text) \<and> range_order text (order2 text)"
    then have "set (order1 text) = set (order2 text)"
      by (simp add: range_order_def)
    from SimpleEmbed_in_order [OF this] a show ?thesis by simp
  qed
  show ?thesis
  proof (intro conjI allI impI)
    show "Embed m p1 text = Embed m p2 text" by (rule eq)
  next
    fix s1 s2 id1 id2 now1 now2 imp1 imp2 cat1 cat2 key1 key2 entry1 entry2 s1' s2'
    assume e1: "embedder s1 = Embed m p1" and e2: "embedder s2 = Embed m p2"
      and st1: "Store s1 id1 now1 text imp1 cat1 key1 = (Inr entry1, s1')"
      and st2: "Store s2 id2 now2 text imp2 cat2 key2 = (Inr entry2, s2')"
    from Store_Inr [OF st1] e1 have "Embed m p1 text = Inr (Vector entry1)" by auto
    moreover from Store_Inr [OF st2] e2 have "Embed m p2 text = Inr (Vector entry2)" by auto
    ultimately show "Vector entry1 = Vector entry2" using eq by simp
  qed
qed

lemma keys_example: "word_keys (Fields (ToLower ''I like coffee'')) = [''i'', ''like'', ''coffee'']"
  by (simp add: word_keys_def Fields_def trim_word_def TrimFunc_def IsSpace_def string_eval)

text \<open>An instance: the vocabulary provider ranging over the three tokens of a text in two
  opposite orders.\<close>

theorem Embed_deterministic_witness:
  "range_order ''I like coffee'' [''i'', ''like'', ''coffee''] \<and>
   range_order ''I like coffee'' [''coffee'', ''like'', ''i''] \<and>
   Embed exact_arith (Simple NewSimpleEmbedder (\<lambda>_. [''i'', ''like'', ''coffee''])) ''I like coffee''
     = Embed exact_arith (Simple NewSimpleEmbedder (\<lambda>_. [''coffee'', ''like'', ''i''])) ''I like coffee''"
proof -
  have r1: "range_order ''I like coffee'' [''i'', ''like'', ''coffee'']"
    by (simp add: range_order_def keys_example)
  have r2: "range_order ''I like coffee'' [''coffee'', ''like'', ''i'']"
    by (auto simp: range_order_def keys_example)
  have "(Simple NewSimpleEmbedder (\<lambda>_. [''i'', ''like'', ''coffee'']) = Local e None \<and>
         Simple NewSimpleEmbedder (\<lambda>_. [''coffee'', ''like'', ''i'']) = Local e None) \<or>
        (Simple NewSimpleEmbedder (\<lambda>_. [''i'', ''like'', ''coffee''])
           = Simple NewSimpleEmbedder (\<lambda>_. [''i'', ''like'', ''coffee'']) \<and>
         Simple NewSimpleEmbedder (\<lambda>_. [''coffee'', ''like'', ''i''])
           = Simple NewSimpleEmbedder (\<lambda>_. [''coffee'', ''like'', ''i'']) \<and>
         range_order ''I like coffee'' ((\<lambda>_. [''i'', ''like'', ''coffee'']) ''I like coffee'') \<and>
         range_order ''I like coffee'' ((\<lambda>_. [''coffee'', ''like'', ''i'']) ''I like coffee''))"
    for e
    using r1 r2 by simp
  from Embed_deterministic [OF this] r1 r2 show ?thesis
    by blast
qed

section \<open>The matcher decides the language of a pattern\<close>

lemma nullable_lang: "nullable r \<longleftrightarrow> [] \<in> lang r"
  by (induction r) (auto intro: star.empty)

lemma lang_cat: "lang (cat r s) = lang (Cat r s)"
  by (cases r) auto

lemma lang_alt: "lang (alt r s) = lang (Alt r s)"
  by (cases r; cases s) auto

lemma dead_lang: "dead r \<Longrightarrow> lang r = {}"
  by (cases r) auto

lemma star_head:
  assumes "x \<in> star A" "x = c # w"
  shows "\<exists>u v. w = u @ v \<and> c # u \<in> A \<and> v \<in> star A"
  using assms
proof (induction arbitrary: w rule: star.induct)
  case empty
  then show ?case by simp
next
  case (more u v)
  show ?case
  proof (cases u)
    case Nil
    with more show ?thesis by simp
  next
    case (Cons a u')
    with more.prems have "a = c" "w = u' @ v" by simp_all
    with more.hyps Cons show ?thesis by blast
  qed
qed

lemma lang_deriv: "lang (deriv c r) = {w. c # w \<in> lang r}"
proof (induction r)
  case Empty
  show ?case by simp
next
  case Eps
  show ?case by simp
next
  case (Cls cl)
  show ?case by auto
next
  case (Cat r s)
  have "{w. c # w \<in> lang (Cat r s)} =
        {u @ v | u v. c # u \<in> lang r \<and> v \<in> lang s} \<union> (if nullable r then {w. c # w \<in> lang s} else {})"
  proof (intro set_eqI iffI)
    fix w assume "w \<in> {w. c # w \<in> lang (Cat r s)}"
    then obtain u v where uv: "c # w = u @ v" "u \<in> lang r" "v \<in> lang s" by auto
    show "w \<in> {u @ v | u v. c # u \<in> lang r \<and> v \<in> lang s} \<union> (if nullable r then {w. c # w \<in> lang s} else {})"
    proof (cases u)
      case Nil
      with uv show ?thesis by (auto simp: nullable_lang)
    next
      case (Cons a u')
      with uv have "w = u' @ v" "c # u' \<in> lang r" by simp_all
      with uv show ?thesis by blast
    qed
  next
    fix w assume w: "w \<in> {u @ v | u v. c # u \<in> lang r \<and> v \<in> lang s} \<union> (if nullable r then {w. c # w \<in> lang s} else {})"
    show "w \<in> {w. c # w \<in> lang (Cat r s)}"
    proof (cases "\<exists>u v. w = u @ v \<and> c # u \<in> lang r \<and> v \<in> lang s")
      case True
      then obtain u v where "w = u @ v" "c # u \<in> lang r" "v \<in> lang s" by blast
      then have "c # w = (c # u) @ v" by simp
      with \<open>c # u \<in> lang r\<close> \<open>v \<in> lang s\<close> show ?thesis by (simp del: append_Cons) blast
    next
      case False
      with w have n: "nullable r" and cw: "c # w \<in> lang s" by (auto split: if_splits)
      from n have "[] \<in> lang r" by (simp add: nullable_lang)
      moreover have "c # w = [] @ (c # w)" by simp
      ultimately show ?thesis using cw by (simp del: append_Nil) blast
    qed
  qed
  then show ?case
    by (simp add: lang_alt lang_cat Cat.IH) 
next
  case (Alt r s)
  then show ?case by (auto simp: lang_alt)
next
  case (Star r)
  have "{w. c # w \<in> star (lang r)} = {u @ v | u v. c # u \<in> lang r \<and> v \<in> star (lang r)}"
  proof (intro set_eqI iffI)
    fix w assume "w \<in> {w. c # w \<in> star (lang r)}"
    then have "c # w \<in> star (lang r)" by simp
    from star_head [OF this refl]
    show "w \<in> {u @ v | u v. c # u \<in> lang r \<and> v \<in> star (lang r)}" by blast
  next
    fix w assume "w \<in> {u @ v | u v. c # u \<in> lang r \<and> v \<in> star (lang r)}"
    then obtain u v where "w = u @ v" "c # u \<in> lang r" "v \<in> star (lang r)" by blast
    then have "(c # u) @ v \<in> star (lang r)" by (intro star.more)
    with \<open>w = u @ v\<close> show "w \<in> {w. c # w \<in> star (lang r)}" by simp
  qed
  then show ?case
    by (simp add: lang_cat Star.IH)
qed

lemma FullMatch_lang: "FullMatch r w \<longleftrightarrow> w \<in> lang r"
proof (induction w arbitrary: r)
  case Nil
  show ?case by (simp add: nullable_lang)
next
  case (Cons c w)
  show ?case
  proof (cases "dead r")
    case True
    then show ?thesis by (simp add: dead_lang)
  next
    case False
    then show ?thesis by (simp add: Cons.IH lang_deriv)
  qed
qed

lemma prefix_match_lang: "prefix_match r w \<longleftrightarrow> (\<exists>u v. w = u @ v \<and> u \<in> lang r)"
proof (induction w arbitrary: r)
  case Nil
  show ?case by (simp add: nullable_lang)
next
  case (Cons c w)
  show ?case
  proof (cases "nullable r")
    case True
    then have "[] \<in> lang r" by (simp add: nullable_lang)
    then have "c # w = [] @ (c # w) \<and> [] \<in> lang r" by simp
    then have "\<exists>u v. c # w = u @ v \<and> u \<in> lang r" by blast
    moreover from True have "prefix_match r (c # w)" by simp
    ultimately show ?thesis by (simp only:)
  next
    case n: False
    then have ne: "[] \<notin> lang r" by (simp add: nullable_lang)
    show ?thesis
    proof (cases "dead r")
      case True
      with n show ?thesis by (simp add: dead_lang)
    next
      case False
      have "(\<exists>u v. w = u @ v \<and> c # u \<in> lang r) = (\<exists>u v. c # w = u @ v \<and> u \<in> lang r)"
      proof
        assume "\<exists>u v. w = u @ v \<and> c # u \<in> lang r"
        then obtain u v where "w = u @ v" "c # u \<in> lang r" by blast
        then have "c # w = (c # u) @ v \<and> c # u \<in> lang r" by simp
        then show "\<exists>u v. c # w = u @ v \<and> u \<in> lang r" by blast
      next
        assume "\<exists>u v. c # w = u @ v \<and> u \<in> lang r"
        then obtain u v where uv: "c # w = u @ v" "u \<in> lang r" by blast
        with ne obtain u' where "u = c # u'" by (cases u) auto
        with uv show "\<exists>u v. w = u @ v \<and> c # u \<in> lang r" by auto
      qed
      with n False show ?thesis by (simp add: Cons.IH lang_deriv)
    qed
  qed
qed

lemma search_lang: "search r w \<longleftrightarrow> (\<exists>p u v. w = p @ u @ v \<and> u \<in> lang r)"
proof (induction w)
  case Nil
  show ?case by (simp add: nullable_lang)
next
  case (Cons c w)
  have "(\<exists>p u v. c # w = p @ u @ v \<and> u \<in> lang r) =
        ((\<exists>u v. c # w = u @ v \<and> u \<in> lang r) \<or> (\<exists>p u v. w = p @ u @ v \<and> u \<in> lang r))"
  proof
    assume "\<exists>p u v. c # w = p @ u @ v \<and> u \<in> lang r"
    then obtain p u v where puv: "c # w = p @ u @ v" "u \<in> lang r" by blast
    show "(\<exists>u v. c # w = u @ v \<and> u \<in> lang r) \<or> (\<exists>p u v. w = p @ u @ v \<and> u \<in> lang r)"
    proof (cases p)
      case Nil
      with puv show ?thesis by auto
    next
      case (Cons a p')
      with puv have "w = p' @ u @ v" by simp
      with puv show ?thesis by blast
    qed
  next
    assume "(\<exists>u v. c # w = u @ v \<and> u \<in> lang r) \<or> (\<exists>p u v. w = p @ u @ v \<and> u \<in> lang r)"
    then show "\<exists>p u v. c # w = p @ u @ v \<and> u \<in> lang r"
    proof
      assume "\<exists>u v. c # w = u @ v \<and> u \<in> lang r"
      then obtain u v where "c # w = [] @ u @ v" "u \<in> lang r" by auto
      then show ?thesis by blast
    next
      assume "\<exists>p u v. w = p @ u @ v \<and> u \<in> lang r"
      then obtain p u v where "w = p @ u @ v" "u \<in> lang r" by blast
      then have "c # w = (c # p) @ u @ v" by simp
      with \<open>u \<in> lang r\<close> show ?thesis by blast
    qed
  qed
  moreover have "search r (c # w) = (prefix_match r (c # w) \<or> search r w)"
    by simp
  ultimately show ?case
    by (simp only: Cons.IH prefix_match_lang)
qed

text \<open>\<open>MatchString\<close> holds exactly when some substring of the runes of the text is a word
  of the pattern; \<open>FullMatch\<close> when the whole text is.\<close>

lemma MatchString_lang:
  "MatchString r s \<longleftrightarrow> (\<exists>p u v. runes s = p @ u @ v \<and> u \<in> lang r)"
  by (simp only: MatchString_def search_lang)

section \<open>AutoCapture\<close>

lemma chunks_length: "length (chunks bs) \<le> length bs"
proof (induction bs rule: chunks.induct)
  case 1
  show ?case by simp
next
  case (2 b0 bs)
  obtain r n where d: "DecodeRune (b0 # bs) = (r, n)"
    by (cases "DecodeRune (b0 # bs)")
  from "2.IH" [OF refl d [symmetric]]
  have "length (chunks (drop (n - 1) bs)) \<le> length (drop (n - 1) bs)" .
  then show ?case
    by (simp add: d del: DecodeRune.simps)
qed

lemma RuneCount_le: "RuneCount s \<le> length s"
  using chunks_length [of "bytes s"] by (simp add: RuneCount_def runes_def bytes_def)

text \<open>
  C4, amended. \<open>ShouldCapture\<close> measures the text with \<open>len\<close>, the number of its bytes. A
  text of fewer than 10 bytes or more than 500 bytes is never captured; since a character
  takes at least one byte, neither is a text of more than 500 characters. For such a text
  \<open>Capture\<close> returns \<open>nil, nil\<close> and leaves the store as it is.
\<close>

theorem ShouldCapture_length_window:
  assumes "length text < 10 \<or> 500 < length text \<or> 500 < RuneCount text"
  shows "\<not> ShouldCapture text \<and> Capture store new_id now text sessionKey = (Inr None, store)"
proof -
  from assms RuneCount_le [of "text"] have "length text < 10 \<or> 500 < length text"
    by linarith
  then have "\<not> ShouldCapture text"
    by (auto simp: ShouldCapture_def)
  then show ?thesis
    by (simp add: Capture_def)
qed

lemmas regex_eval = MatchString_def stri_def fold_class_def Lit_def Plus_def RepMin_def
  cls_d_def cls_s_def cls_w_def cls_wi_def Let_def

lemma czech_runes: "RuneCount (''rad'' @ [CHR 0xC5, CHR 0xA1] @ ''i '' @ [CHR 0xC4, CHR 0x8D] @ ''aj'') = 9"
  by (simp add: RuneCount_def string_eval)

lemma czech_capture: "ShouldCapture (''rad'' @ [CHR 0xC5, CHR 0xA1] @ ''i '' @ [CHR 0xC4, CHR 0x8D] @ ''aj'')"
  by (simp add: ShouldCapture_def emojiCount_def triggers_def regex_eval string_eval)

lemma kelvin_runes:
  "RuneCount (''li'' @ [CHR 0xE2, CHR 0x84, CHR 0xAA] @ ''e'' @ [CHR 0xF0, CHR 0x9F, CHR 0x98, CHR 0x80]) = 5"
  by (simp add: RuneCount_def string_eval)

lemma kelvin_capture:
  "ShouldCapture (''li'' @ [CHR 0xE2, CHR 0x84, CHR 0xAA] @ ''e'' @ [CHR 0xF0, CHR 0x9F, CHR 0x98, CHR 0x80])"
  by (simp add: ShouldCapture_def emojiCount_def triggers_def regex_eval string_eval)

text \<open>
  C4 as the claim states it, with the length in characters, fails below the window: a text of
  9 characters in 11 bytes (the Czech for "rather tea", with U+0161 and U+010D) is accepted
  through the trigger of the second pattern, and so is a text of 5 characters in 10 bytes
  (\<open>li\<close>, U+212A, \<open>e\<close>, U+1F600), since under \<open>(?i)\<close> the letter k matches the Kelvin sign.
\<close>

theorem ShouldCapture_counts_bytes:
  "RuneCount (''rad'' @ [CHR 0xC5, CHR 0xA1] @ ''i '' @ [CHR 0xC4, CHR 0x8D] @ ''aj'') = 9 \<and>
   ShouldCapture (''rad'' @ [CHR 0xC5, CHR 0xA1] @ ''i '' @ [CHR 0xC4, CHR 0x8D] @ ''aj'') \<and>
   RuneCount (''li'' @ [CHR 0xE2, CHR 0x84, CHR 0xAA] @ ''e'' @ [CHR 0xF0, CHR 0x9F, CHR 0x98, CHR 0x80]) = 5 \<and>
   ShouldCapture (''li'' @ [CHR 0xE2, CHR 0x84, CHR 0xAA] @ ''e'' @ [CHR 0xF0, CHR 0x9F, CHR 0x98, CHR 0x80])"
  using czech_runes czech_capture kelvin_runes kelvin_capture by blast

text \<open>An instance: a text of 5 bytes and a text of 600 bytes.\<close>

theorem ShouldCapture_length_window_witness:
  "length ''hello'' = 5 \<and> \<not> ShouldCapture ''hello'' \<and>
   Capture example_store ''3e3bad85-6f4e-4c9b-8d84-9c5a4f3b1d04'' 4 ''hello'' ''s1'' = (Inr None, example_store) \<and>
   length (replicate 600 CHR ''a'') = 600 \<and> \<not> ShouldCapture (replicate 600 CHR ''a'')"
proof -
  have a: "length ''hello'' < 10 \<or> 500 < length ''hello'' \<or> 500 < RuneCount ''hello''"
    by simp
  have b: "length (replicate 600 CHR ''a'') < 10 \<or> 500 < length (replicate 600 CHR ''a'') \<or>
           500 < RuneCount (replicate 600 CHR ''a'')"
    by simp
  from ShouldCapture_length_window [OF a, of example_store "''3e3bad85-6f4e-4c9b-8d84-9c5a4f3b1d04''" 4 "''s1''"]
    ShouldCapture_length_window [OF b, of example_store "''3e3bad85-6f4e-4c9b-8d84-9c5a4f3b1d04''" 4 "''s1''"]
  show ?thesis by simp
qed

text \<open>
  C1, amended. For every text that \<open>ShouldCapture\<close> accepts and \<open>Capture\<close> stores, the
  importance of the entry is 0.7 when the text matches the pattern of always and never,
  whether or not it contains "important"; otherwise 0.8 when the lower-cased text contains
  "important"; otherwise 0.5. The two assignments follow each other and the later one stands.
\<close>

theorem Capture_importance:
  assumes "Capture store new_id now text sessionKey = (Inr (Some entry), store')"
  shows "ShouldCapture text \<and>
         Importance entry =
           (if MatchString re_always_never text then 0.7
            else if Contains (ToLower text) ''important'' then 0.8
            else 0.5)"
proof -
  from assms have sc: "ShouldCapture text"
    by (auto simp: Capture_def split: if_splits)
  let ?imp = "if MatchString re_always_never text then 0.7
            else if Contains (ToLower text) ''important'' then 0.8
            else (0.5::real)"
  from assms sc have "Store store new_id now text ?imp (DetectCategory text) sessionKey = (Inr entry, store')"
    by (auto simp: Capture_def Let_def split: prod.splits sum.splits if_splits)
  from Store_Inr [OF this] have "Importance entry = ?imp"
    by auto
  with sc show ?thesis by simp
qed

lemma important_always_capture: "ShouldCapture ''It is important to always lock the door''"
  by (simp add: ShouldCapture_def emojiCount_def triggers_def regex_eval string_eval)

lemma important_always_contains: "Contains (ToLower ''It is important to always lock the door'') ''important''"
  by (simp add: string_eval)

lemma important_always_match: "MatchString re_always_never ''It is important to always lock the door''"
  by (simp add: re_always_never_def regex_eval string_eval)

lemma important_always_category: "DetectCategory ''It is important to always lock the door'' = ''fact''"
  by (simp add: DetectCategory_def re_preference_def re_decision_def re_entity_def re_fact_def
      regex_eval string_eval)

lemma example_store_fields:
  "db example_store = []" "categories example_store = MemoryCategories"
  "embedder example_store text = (if text = ''User prefers dark roast coffee'' then Inr [3 / 5, 4 / 5] else Inr [1, 0])"
  by (simp_all add: example_store_def OpenAI_Embed_def example_post_def normalize_3_4 normalize_1_0)

text \<open>
  C1 as the claim states it fails when both triggers match: the text below contains
  "important" and matches "always", and its entry gets the importance 0.7, not 0.8.
\<close>

theorem Capture_important_and_always:
  "Contains (ToLower ''It is important to always lock the door'') ''important'' \<and>
   MatchString re_always_never ''It is important to always lock the door'' \<and>
   (case Capture example_store ''3e3bad85-6f4e-4c9b-8d84-9c5a4f3b1d04'' 4
           ''It is important to always lock the door'' ''s1''
    of (Inr (Some entry), s') \<Rightarrow> Importance entry = 0.7 \<and> db s' = [entry]
     | _ \<Rightarrow> False)"
  by (simp add: important_always_contains important_always_match Capture_def
      important_always_capture important_always_category Store_def example_store_fields
      isValidCategory_def MemoryCategories_def Let_def)

lemma important_only_capture: "ShouldCapture ''This is important for the project''"
  by (simp add: ShouldCapture_def emojiCount_def triggers_def regex_eval string_eval)

lemma important_only_contains: "Contains (ToLower ''This is important for the project'') ''important''"
  by (simp add: string_eval)

lemma important_only_match: "\<not> MatchString re_always_never ''This is important for the project''"
  by (simp add: re_always_never_def regex_eval string_eval)

lemma important_only_category: "DetectCategory ''This is important for the project'' = ''fact''"
  by (simp add: DetectCategory_def re_preference_def re_decision_def re_entity_def re_fact_def
      regex_eval string_eval)

text \<open>An instance: a text with "important" alone, stored with the importance 0.8.\<close>

theorem Capture_importance_witness:
  "Capture example_store ''3e3bad85-6f4e-4c9b-8d84-9c5a4f3b1d04'' 4
      ''This is important for the project'' ''s1''
   = (Inr (Some \<lparr> ID = ''3e3bad85-6f4e-4c9b-8d84-9c5a4f3b1d04'',
                    Text = ''This is important for the project'', Vector = [1, 0],
                    Importance = 0.8, Category = ''fact'', SessionKey = ''s1'', CreatedAt = 4 \<rparr>),
      example_store \<lparr> db := [\<lparr> ID = ''3e3bad85-6f4e-4c9b-8d84-9c5a4f3b1d04'',
                    Text = ''This is important for the project'', Vector = [1, 0],
                    Importance = 0.8, Category = ''fact'', SessionKey = ''s1'', CreatedAt = 4 \<rparr>] \<rparr>) \<and>
   ShouldCapture ''This is important for the project'' \<and>
   \<not> MatchString re_always_never ''This is important for the project'' \<and>
   Contains (ToLower ''This is important for the project'') ''important''"
proof -
  have h: "Capture example_store ''3e3bad85-6f4e-4c9b-8d84-9c5a4f3b1d04'' 4
      ''This is important for the project'' ''s1''
   = (Inr (Some \<lparr> ID = ''3e3bad85-6f4e-4c9b-8d84-9c5a4f3b1d04'',
                    Text = ''This is important for the project'', Vector = [1, 0],
                    Importance = 0.8, Category = ''fact'', SessionKey = ''s1'', CreatedAt = 4 \<rparr>),
      example_store \<lparr> db := [\<lparr> ID = ''3e3bad85-6f4e-4c9b-8d84-9c5a4f3b1d04'',
                    Text = ''This is important for the project'', Vector = [1, 0],
                    Importance = 0.8, Category = ''fact'', SessionKey = ''s1'', CreatedAt = 4 \<rparr>] \<rparr>)"
    by (simp add: important_only_contains important_only_match Capture_def
      important_only_capture important_only_category Store_def example_store_fields
      isValidCategory_def MemoryCategories_def Let_def)
  from Capture_importance [OF h] h important_only_match important_only_contains
  show ?thesis by simp
qed

section \<open>Delete\<close>

subsection \<open>Matching a pattern of character classes\<close>

lemma FullMatch_Empty [simp]: "FullMatch Empty w = False"
  by (cases w) simp_all

lemma FullMatch_Eps [simp]: "FullMatch Eps w = (w = [])"
  by (cases w) simp_all

lemma FullMatch_Cls: "FullMatch (Cls cl) w = (\<exists>c. w = [c] \<and> in_class c cl)"
  by (cases w) auto

lemma FullMatch_Cat_Eps [simp]: "FullMatch (Cat Eps s) w = FullMatch s w"
proof (cases w)
  case Nil
  then show ?thesis by simp
next
  case (Cons c cs)
  then show ?thesis by (cases s) simp_all
qed

lemma FullMatch_Cat_Empty [simp]: "FullMatch (Cat Empty s) w = False"
  by (cases w) simp_all

lemma FullMatch_cat: "FullMatch (cat r s) w = FullMatch (Cat r s) w"
  by (cases r) simp_all

lemma FullMatch_Cat_Cls:
  "FullMatch (Cat (Cls cl) s) w = (\<exists>c w'. w = c # w' \<and> in_class c cl \<and> FullMatch s w')"
  by (cases w) auto

lemma FullMatch_Cat_Cat_Cls:
  "FullMatch (Cat (Cat (Cls cl) r) s) w =
     (\<exists>c w'. w = c # w' \<and> in_class c cl \<and> FullMatch (Cat r s) w')"
  by (cases w) (auto simp: FullMatch_cat)

lemma FullMatch_Rep:
  "FullMatch (Rep n (Cls cl)) w = list_all2 in_class w (replicate n cl)"
proof (induction n arbitrary: w)
  case 0
  show ?case by auto
next
  case (Suc n)
  show ?case
    by (simp add: FullMatch_Cat_Cls Suc.IH list_all2_Cons2)
qed

lemma FullMatch_Rep_Cat:
  assumes "\<And>v. FullMatch s v = list_all2 in_class v ts"
  shows "FullMatch (Cat (Rep n (Cls cl)) s) w = list_all2 in_class w (replicate n cl @ ts)"
proof (induction n arbitrary: w)
  case 0
  show ?case by (simp add: assms)
next
  case (Suc n)
  show ?case
    by (simp add: FullMatch_Cat_Cat_Cls Suc.IH list_all2_Cons2)
qed

lemma FullMatch_Lit_Cat:
  assumes "\<And>v. FullMatch s v = list_all2 in_class v ts"
  shows "FullMatch (Cat (Lit c) s) w = list_all2 in_class w ([(c, c)] # ts)"
  by (simp add: Lit_def FullMatch_Cat_Cls assms list_all2_Cons2)

lemma FullMatch_uuidRegex: "FullMatch uuidRegex w = list_all2 in_class w uuid_classes"
  unfolding uuidRegex_def uuid_classes_def Seq.simps
  by (intro FullMatch_Rep_Cat FullMatch_Lit_Cat FullMatch_Rep)

subsection \<open>Texts of ASCII runes\<close>

lemma DecodeRune_ascii:
  assumes "fst (DecodeRune (b0 # bs)) < 128"
  shows "b0 < 128 \<and> DecodeRune (b0 # bs) = (b0, 1)"
proof (cases "b0 < 128")
  case True
  then show ?thesis by simp
next
  case False
  have "128 \<le> fst (DecodeRune (b0 # bs))"
  proof (cases bs)
    case Nil
    with False show ?thesis by (simp add: RuneError_def)
  next
    case c1: (Cons b1 bs1)
    show ?thesis
    proof (cases bs1)
      case Nil
      with False c1 show ?thesis by (auto simp: RuneError_def cont_def; arith)
    next
      case c2: (Cons b2 bs2)
      show ?thesis
      proof (cases bs2)
        case Nil
        with False c1 c2 show ?thesis by (auto simp: RuneError_def cont_def; arith)
      next
        case c3: (Cons b3 bs3)
        with False c1 c2 show ?thesis by (auto simp: RuneError_def cont_def; arith)
      qed
    qed
  qed
  with assms show ?thesis by simp
qed

lemma chunks_ascii_runes:
  "\<forall>r \<in> set (map fst (chunks bs)). r < 128 \<Longrightarrow> map fst (chunks bs) = bs"
proof (induction bs rule: chunks.induct)
  case 1
  show ?case by simp
next
  case (2 b0 bs)
  obtain r n where d: "DecodeRune (b0 # bs) = (r, n)"
    by (cases "DecodeRune (b0 # bs)")
  have c: "chunks (b0 # bs) = (r, b0 # take (n - 1) bs) # chunks (drop (n - 1) bs)"
    by (simp add: d del: DecodeRune.simps)
  from "2.prems" have all: "\<forall>x \<in> set (map fst ((r, b0 # take (n - 1) bs) # chunks (drop (n - 1) bs))). x < 128"
    unfolding c .
  then have "r < 128" by simp
  then have "fst (DecodeRune (b0 # bs)) < 128" unfolding d by simp
  from DecodeRune_ascii [OF this] have "(r, n) = (b0, 1)" unfolding d by simp
  then have rn: "r = b0" "n = 1" by simp_all
  from all rn have "\<forall>x \<in> set (map fst (chunks bs)). x < 128" by simp
  moreover have "\<forall>x \<in> set (map fst (chunks (drop (n - 1) bs))). x < 128 \<Longrightarrow>
                 map fst (chunks (drop (n - 1) bs)) = drop (n - 1) bs"
    by (rule "2.IH" [OF refl d [symmetric]])
  ultimately have "map fst (chunks bs) = bs" using rn by simp
  then show ?case unfolding c using rn by simp
qed

lemma chunks_ascii_bytes:
  "\<forall>b \<in> set bs. b < 128 \<Longrightarrow> map fst (chunks bs) = bs"
proof (induction bs)
  case Nil
  show ?case by simp
next
  case (Cons b0 bs)
  then have b: "b0 < 128" and IH: "map fst (chunks bs) = bs" by simp_all
  from b have d: "DecodeRune (b0 # bs) = (b0, 1)" by simp
  have "chunks (b0 # bs) = (b0, [b0]) # chunks bs"
    by (simp add: d del: DecodeRune.simps)
  with IH show ?case by simp
qed

lemma mod64_less: "x mod 64 < (128::nat)"
  by (rule less_trans [of _ 64]) simp_all

lemma EncodeRune_bytes: "\<forall>b \<in> set (EncodeRune r). b < 256"
proof -
  consider "r < 128" | "128 \<le> r" "r < 2048"
    | "2048 \<le> r" "(55296 \<le> r \<and> r \<le> 57343) \<or> 1114111 < r"
    | "2048 \<le> r" "\<not> ((55296 \<le> r \<and> r \<le> 57343) \<or> 1114111 < r)" "r < 65536"
    | "65536 \<le> r" "r \<le> 1114111"
    by linarith
  then show ?thesis
  proof cases
    case 1
    then show ?thesis by (simp add: EncodeRune_def)
  next
    case 2
    then have "r div 64 < 32" by simp
    then show ?thesis using 2 by (simp add: EncodeRune_def mod64_less)
  next
    case 3
    then show ?thesis by (auto simp: EncodeRune_def)
  next
    case 4
    then have "r div 4096 < 16" by simp
    then show ?thesis using 4 by (simp add: EncodeRune_def mod64_less)
  next
    case 5
    then have "r div 262144 \<le> 4" by simp
    then show ?thesis using 5 by (simp add: EncodeRune_def mod64_less)
  qed
qed

lemma EncodeRune_ascii: "r < 128 \<Longrightarrow> EncodeRune r = [r]"
  by (simp add: EncodeRune_def)

lemma EncodeRune_not_ascii: "\<not> r < 128 \<Longrightarrow> \<exists>b \<in> set (EncodeRune r). \<not> b < 128"
  by (simp add: EncodeRune_def)

lemma bytes_unbytes: "\<forall>b \<in> set bs. b < 256 \<Longrightarrow> bytes (unbytes bs) = bs"
  by (induction bs) (simp_all add: bytes_def unbytes_def)

lemma bytes_ToLower:
  "bytes (ToLower s) = concat (map (\<lambda>r. EncodeRune (unicode_ToLower r)) (runes s))"
proof -
  have "\<forall>b \<in> set (concat (map (\<lambda>r. EncodeRune (unicode_ToLower r)) (runes s))). b < 256"
    using EncodeRune_bytes by auto
  then show ?thesis
    unfolding ToLower_def by (rule bytes_unbytes)
qed

lemma concat_Encode_ascii:
  "\<forall>r \<in> set rs. f r < 128 \<Longrightarrow> concat (map (\<lambda>r. EncodeRune (f r)) rs) = map f rs"
  by (induction rs) (simp_all add: EncodeRune_ascii)

lemma concat_Encode_ascii_conv:
  "\<forall>b \<in> set (concat (map (\<lambda>r. EncodeRune (f r)) rs)). b < 128 \<Longrightarrow> \<forall>r \<in> set rs. f r < 128"
proof (induction rs)
  case Nil
  show ?case by simp
next
  case (Cons r rs)
  from Cons.prems have a: "\<forall>b \<in> set (EncodeRune (f r)). b < 128"
    and b: "\<forall>b \<in> set (concat (map (\<lambda>r. EncodeRune (f r)) rs)). b < 128"
    by simp_all
  from a EncodeRune_not_ascii [of "f r"] have "f r < 128" by blast
  with Cons.IH [OF b] show ?case by simp
qed

lemma runes_ToLower_eq:
  "runes (ToLower s) = map fst (chunks (concat (map (\<lambda>r. EncodeRune (unicode_ToLower r)) (runes s))))"
  by (simp only: runes_def [of "ToLower s"] bytes_ToLower)

lemma runes_ToLower_ascii:
  assumes "\<forall>r \<in> set (runes (ToLower s)). r < 128"
  shows "runes (ToLower s) = map unicode_ToLower (runes s)"
proof -
  let ?X = "concat (map (\<lambda>r. EncodeRune (unicode_ToLower r)) (runes s))"
  from assms have "\<forall>r \<in> set (map fst (chunks ?X)). r < 128"
    by (simp only: runes_ToLower_eq)
  then have x: "map fst (chunks ?X) = ?X"
    by (rule chunks_ascii_runes)
  with assms have "\<forall>b \<in> set ?X. b < 128"
    by (simp only: runes_ToLower_eq)
  then have "\<forall>r \<in> set (runes s). unicode_ToLower r < 128"
    by (rule concat_Encode_ascii_conv)
  then have "?X = map unicode_ToLower (runes s)"
    by (rule concat_Encode_ascii)
  with x show ?thesis
    by (simp only: runes_ToLower_eq)
qed

lemma runes_ToLower_ascii':
  assumes "\<forall>r \<in> set (runes s). unicode_ToLower r < 128"
  shows "runes (ToLower s) = map unicode_ToLower (runes s)"
proof -
  let ?X = "concat (map (\<lambda>r. EncodeRune (unicode_ToLower r)) (runes s))"
  from assms have x: "?X = map unicode_ToLower (runes s)"
    by (rule concat_Encode_ascii)
  with assms have "\<forall>b \<in> set ?X. b < 128" by simp
  then have "map fst (chunks ?X) = ?X" by (rule chunks_ascii_bytes)
  with x show ?thesis
    by (simp only: runes_ToLower_eq)
qed

lemma runes_ascii:
  "\<forall>r \<in> set (runes s). r < 128 \<Longrightarrow> runes s = map of_char s"
  unfolding runes_def bytes_def by (rule chunks_ascii_runes)

lemma runes_ascii':
  assumes "\<forall>c \<in> set s. (of_char c :: nat) < 128"
  shows "runes s = map of_char s"
proof -
  from assms have "\<forall>b \<in> set (map of_char s). (b::nat) < 128" by simp
  then show ?thesis
    unfolding runes_def bytes_def by (rule chunks_ascii_bytes)
qed

subsection \<open>The check of the identifier is the canonical form\<close>

lemma uuid_classes_shape: "uuid_classes = map shape_class ''xxxxxxxx-xxxx-xxxx-xxxx-xxxxxxxxxxxx''"
  by (simp add: uuid_classes_def shape_class_def eval_nat_numeral)

lemma FullMatch_uuid_shape:
  "FullMatch uuidRegex w =
     list_all2 (\<lambda>r t. in_class r (shape_class t)) w ''xxxxxxxx-xxxx-xxxx-xxxx-xxxxxxxxxxxx''"
  by (simp only: FullMatch_uuidRegex uuid_classes_shape list_all2_map2)

lemma shape_class_ascii: "in_class r (shape_class t) \<Longrightarrow> r < 128"
  by (auto simp: shape_class_def cls_hex_def split: if_splits)

lemma of_char_dash: "(of_char c = (45::nat)) = (c = CHR ''-'')"
proof
  assume "of_char c = (45::nat)"
  then have "(of_char c :: nat) = of_char CHR ''-''" by simp
  then show "c = CHR ''-''" by (simp only: of_char_eq_iff)
next
  assume "c = CHR ''-''"
  then show "of_char c = (45::nat)" by simp
qed

lemma ToLower_shape_ascii: "in_class (unicode_ToLower r) (shape_class t) \<Longrightarrow> r < 128"
  by (auto simp: shape_class_def cls_hex_def unicode_ToLower_def split: if_splits)

lemma ToLower_ascii: "r < 128 \<Longrightarrow> unicode_ToLower r < 128"
  by (auto simp: unicode_ToLower_def)

lemma ToLower_shape_char:
  "in_class (unicode_ToLower (of_char c)) (shape_class t) = uuid_shape c t"
proof (cases "t = CHR ''-''")
  case True
  have "(unicode_ToLower (of_char c) = 45) = (of_char c = (45::nat))"
    by (auto simp: unicode_ToLower_def split: if_splits)
  then have "(45 \<le> unicode_ToLower (of_char c) \<and> unicode_ToLower (of_char c) \<le> 45) = (c = CHR ''-'')"
    unfolding of_char_dash by auto
  with True show ?thesis
    by (simp add: shape_class_def uuid_shape_def)
next
  case False
  have "(in_class (unicode_ToLower (of_char c)) cls_hex) = hex_digit c"
    by (auto simp: unicode_ToLower_def cls_hex_def hex_digit_def Let_def split: if_splits)
  with False show ?thesis
    by (simp add: shape_class_def uuid_shape_def)
qed

lemma uuid_shape_ascii: "uuid_shape c t \<Longrightarrow> (of_char c :: nat) < 128"
  by (auto simp: uuid_shape_def hex_digit_def Let_def split: if_splits)

lemma list_all2_lefts: "list_all2 P xs ys \<Longrightarrow> (\<And>x y. P x y \<Longrightarrow> Q x) \<Longrightarrow> \<forall>x \<in> set xs. Q x"
  by (induction rule: list_all2_induct) auto

lemma uuid_check_iff:
  "FullMatch uuidRegex (runes (ToLower ident)) = canonical_uuid_form ident"
proof
  let ?t = "''xxxxxxxx-xxxx-xxxx-xxxx-xxxxxxxxxxxx''"
  assume "FullMatch uuidRegex (runes (ToLower ident))"
  then have m: "list_all2 (\<lambda>r t. in_class r (shape_class t)) (runes (ToLower ident)) ?t"
    by (simp only: FullMatch_uuid_shape)
  then have "\<forall>r \<in> set (runes (ToLower ident)). r < 128"
    by (rule list_all2_lefts) (rule shape_class_ascii)
  then have "runes (ToLower ident) = map unicode_ToLower (runes ident)"
    by (rule runes_ToLower_ascii)
  with m have m2: "list_all2 (\<lambda>r t. in_class (unicode_ToLower r) (shape_class t)) (runes ident) ?t"
    by (simp only: list_all2_map1)
  then have "\<forall>r \<in> set (runes ident). r < 128"
    by (rule list_all2_lefts) (rule ToLower_shape_ascii)
  then have "runes ident = map of_char ident"
    by (rule runes_ascii)
  with m2 have "list_all2 (\<lambda>c t. in_class (unicode_ToLower (of_char c)) (shape_class t)) ident ?t"
    by (simp only: list_all2_map1)
  then show "canonical_uuid_form ident"
    by (simp only: ToLower_shape_char canonical_uuid_form_def)
next
  let ?t = "''xxxxxxxx-xxxx-xxxx-xxxx-xxxxxxxxxxxx''"
  assume "canonical_uuid_form ident"
  then have c: "list_all2 uuid_shape ident ?t"
    by (simp only: canonical_uuid_form_def)
  then have a: "\<forall>c \<in> set ident. (of_char c :: nat) < 128"
    by (rule list_all2_lefts) (rule uuid_shape_ascii)
  then have r: "runes ident = map of_char ident"
    by (rule runes_ascii')
  from a have "\<forall>r \<in> set (runes ident). unicode_ToLower r < 128"
    unfolding r by (simp add: ToLower_ascii)
  then have "runes (ToLower ident) = map unicode_ToLower (map of_char ident)"
    unfolding r [symmetric] by (rule runes_ToLower_ascii')
  moreover from c have "list_all2 (\<lambda>c t. in_class (unicode_ToLower (of_char c)) (shape_class t)) ident ?t"
    by (simp only: ToLower_shape_char)
  ultimately have "list_all2 (\<lambda>r t. in_class r (shape_class t)) (runes (ToLower ident)) ?t"
    by (simp only: list_all2_map1)
  then show "FullMatch uuidRegex (runes (ToLower ident))"
    by (simp only: FullMatch_uuid_shape)
qed

subsection \<open>The contract of Delete\<close>

lemma Delete_invalid:
  "\<not> canonical_uuid_form ident \<Longrightarrow> Delete s ident = (Some (ValidationError ident), s)"
  by (simp add: Delete_def uuid_check_iff)

lemma filter_absent: "ident \<notin> ID ` set rows \<Longrightarrow> filter (\<lambda>e. ID e \<noteq> ident) rows = rows"
  by (induction rows) auto

lemma filter_absent_len: "ident \<notin> ID ` set rows \<Longrightarrow> length (filter (\<lambda>e. ID e = ident) rows) = 0"
  by (induction rows) auto

lemma filter_present_len: "ident \<in> ID ` set rows \<Longrightarrow> length (filter (\<lambda>e. ID e = ident) rows) \<noteq> 0"
  by (induction rows) auto

lemma Delete_absent:
  assumes "canonical_uuid_form ident" "ident \<notin> ID ` set (db s)"
  shows "Delete s ident = (Some (NotFoundError ident), s)"
  using assms by (simp add: Delete_def uuid_check_iff Let_def filter_absent filter_absent_len)

lemma Delete_present:
  assumes "canonical_uuid_form ident" "ident \<in> ID ` set (db s)"
  shows "Delete s ident = (None, s\<lparr>db := filter (\<lambda>e. ID e \<noteq> ident) (db s)\<rparr>)"
  using assms filter_present_len [of ident "db s"]
  by (simp add: Delete_def uuid_check_iff Let_def)

lemma later_absent:
  assumes "later ident s s'" "ident \<notin> ID ` set (db s)"
  shows "ident \<notin> ID ` set (db s')"
  using assms
proof (induction rule: later.induct)
  case (now ident s)
  then show ?case by simp
next
  case (store ident s s' new_id now tx importance category sessionKey)
  then have a: "ident \<notin> ID ` set (db s')" by simp
  from Store_db_cases [of s' new_id now tx importance category sessionKey]
  show ?case
  proof
    assume "db (snd (Store s' new_id now tx importance category sessionKey)) = db s'"
    with a show ?thesis by simp
  next
    assume "\<exists>entry. fst (Store s' new_id now tx importance category sessionKey) = Inr entry \<and>
        db (snd (Store s' new_id now tx importance category sessionKey)) = db s' @ [entry]"
    then obtain entry where e: "fst (Store s' new_id now tx importance category sessionKey) = Inr entry"
      and d: "db (snd (Store s' new_id now tx importance category sessionKey)) = db s' @ [entry]"
      by blast
    from e have "Store s' new_id now tx importance category sessionKey
                 = (Inr entry, snd (Store s' new_id now tx importance category sessionKey))"
      by (metis prod.collapse)
    from Store_Inr [OF this] have "ID entry = new_id" by auto
    with a d store.hyps(2) show ?thesis by auto
  qed
next
  case (delete ident s s' other)
  then have a: "ident \<notin> ID ` set (db s')" by simp
  from Delete_db [of s' other] a show ?case by auto
qed

lemma candidate_window_subset: "set (candidate_window s) \<subseteq> set (db s)"
proof -
  have "set (take 1000 (rev (sort_key CreatedAt (db s)))) \<subseteq> set (rev (sort_key CreatedAt (db s)))"
    by (rule set_take_subset)
  then show ?thesis by (simp add: candidate_window_def)
qed

lemma Search_results_from_db:
  assumes "Search s query limit minScore = Inr results" "r \<in> set results"
  shows "Entry r \<in> set (db s)"
proof -
  from Search_Inr [OF assms(1)] obtain queryVector where
    res: "results = take (nat (limit_in_force s limit)) (sort_results (survivors s queryVector minScore))"
    by blast
  from assms(2) have "r \<in> set (sort_results (survivors s queryVector minScore))"
    unfolding res by (rule in_set_takeD)
  then have "r \<in> set (survivors s queryVector minScore)"
    by (simp only: sort_results_set)
  then have "Entry r \<in> set (candidate_window s)"
    by (auto simp: survivors_def mk_result_def)
  with candidate_window_subset show ?thesis by blast
qed

text \<open>
  C5. \<open>Delete\<close> of an identifier that is not in the canonical form of a UUID, letters of
  either case, returns the validation error and leaves the store as it is. Of an identifier
  in that form that no row carries, it returns the not-found error and leaves the store as it
  is. Of an identifier that a row carries, it returns no error; from then on no row carries
  the identifier and no \<open>Search\<close> returns a result with it, whatever is stored or deleted
  later under other identifiers.
\<close>

theorem Delete_contract:
  "(\<not> canonical_uuid_form ident \<longrightarrow> Delete s ident = (Some (ValidationError ident), s)) \<and>
   (canonical_uuid_form ident \<longrightarrow> ident \<notin> ID ` set (db s) \<longrightarrow>
      Delete s ident = (Some (NotFoundError ident), s)) \<and>
   (canonical_uuid_form ident \<longrightarrow> ident \<in> ID ` set (db s) \<longrightarrow>
      fst (Delete s ident) = None \<and>
      (\<forall>s'. later ident (snd (Delete s ident)) s' \<longrightarrow>
         ident \<notin> ID ` set (db s') \<and>
         (\<forall>query limit minScore results.
            Search s' query limit minScore = Inr results \<longrightarrow>
            ident \<notin> (\<lambda>r. ID (Entry r)) ` set results)))"
proof (intro conjI impI allI)
  assume "\<not> canonical_uuid_form ident"
  then show "Delete s ident = (Some (ValidationError ident), s)" by (rule Delete_invalid)
next
  assume "canonical_uuid_form ident" "ident \<notin> ID ` set (db s)"
  then show "Delete s ident = (Some (NotFoundError ident), s)" by (rule Delete_absent)
next
  assume "canonical_uuid_form ident" "ident \<in> ID ` set (db s)"
  then show "fst (Delete s ident) = None" by (simp add: Delete_present)
next
  fix s'
  assume c: "canonical_uuid_form ident" and p: "ident \<in> ID ` set (db s)"
    and l: "later ident (snd (Delete s ident)) s'"
  have "ident \<notin> ID ` set (db (snd (Delete s ident)))"
    by (auto simp: Delete_present [OF c p])
  with l show "ident \<notin> ID ` set (db s')" by (rule later_absent)
next
  fix s' query limit minScore results
  assume c: "canonical_uuid_form ident" and p: "ident \<in> ID ` set (db s)"
    and l: "later ident (snd (Delete s ident)) s'"
    and sr: "Search s' query limit minScore = Inr results"
  have "ident \<notin> ID ` set (db (snd (Delete s ident)))"
    by (auto simp: Delete_present [OF c p])
  with l have a: "ident \<notin> ID ` set (db s')" by (rule later_absent)
  show "ident \<notin> (\<lambda>r. ID (Entry r)) ` set results"
  proof
    assume "ident \<in> (\<lambda>r. ID (Entry r)) ` set results"
    then obtain r where "r \<in> set results" "ID (Entry r) = ident" by auto
    with Search_results_from_db [OF sr] a show False by auto
  qed
qed

lemma uuid_examples:
  "\<not> canonical_uuid_form ''not-a-uuid''"
  "canonical_uuid_form ''1C1F8B63-4D2C-4A7F-8B62-7A3E2D1F9B02''"
  "canonical_uuid_form ''1c1f8b63-4d2c-4a7f-8b62-7a3e2d1f9b02''"
  by (simp_all add: canonical_uuid_form_def uuid_shape_def hex_digit_def)

lemma example_delete:
  "Delete example_store3 ''1c1f8b63-4d2c-4a7f-8b62-7a3e2d1f9b02'' =
     (None, example_store3 \<lparr> db :=
       [\<lparr> ID = ''0b0e7a52-3c1b-4f6e-9a51-6f2d1c0e8a01'', Text = ''coffee beans'', Vector = [1, 0],
          Importance = 0.5, Category = ''fact'', SessionKey = ''s1'', CreatedAt = 1 \<rparr>,
        \<lparr> ID = ''2d2a9c74-5e3d-4b8a-9c73-8b4f3e2a0c03'', Text = ''User prefers dark roast coffee'',
          Vector = [3 / 5, 4 / 5], Importance = 0.5, Category = ''preference'', SessionKey = ''s1'',
          CreatedAt = 3 \<rparr>] \<rparr>)"
proof -
  have "''1c1f8b63-4d2c-4a7f-8b62-7a3e2d1f9b02'' \<in> ID ` set (db example_store3)"
    by (simp add: example_store3_db)
  from Delete_present [OF uuid_examples(3) this] show ?thesis
    by (simp add: example_store3_db)
qed

lemma example_search_after_delete:
  "Search (snd (Delete example_store3 ''1c1f8b63-4d2c-4a7f-8b62-7a3e2d1f9b02'')) ''coffee'' 5 0.5 =
     Inr [\<lparr> Entry = \<lparr> ID = ''0b0e7a52-3c1b-4f6e-9a51-6f2d1c0e8a01'', Text = ''coffee beans'',
                      Vector = [1, 0], Importance = 0.5, Category = ''fact'', SessionKey = ''s1'',
                      CreatedAt = 1 \<rparr>, Score = 1 \<rparr>,
          \<lparr> Entry = \<lparr> ID = ''2d2a9c74-5e3d-4b8a-9c73-8b4f3e2a0c03'',
                      Text = ''User prefers dark roast coffee'', Vector = [3 / 5, 4 / 5],
                      Importance = 0.5, Category = ''preference'', SessionKey = ''s1'',
                      CreatedAt = 3 \<rparr>, Score = 3 / 5 \<rparr>]"
  by (simp add: example_delete Search_def example_embed example_store3_config candidate_window_def
      score_rows_def cosineSimilarity_def Let_def sort_results_def inner_loop_def swap_step_def)

text \<open>An instance on the example store: a malformed identifier; the identifier of the second
  row written in capital letters, which is well-formed but is not the \<open>id\<close> of any row, since
  the statement compares the argument as given; and the identifier of the second row, which
  the search after the deletion no longer lists.\<close>

theorem Delete_contract_witness:
  "\<not> canonical_uuid_form ''not-a-uuid'' \<and>
   Delete example_store3 ''not-a-uuid'' = (Some (ValidationError ''not-a-uuid''), example_store3) \<and>
   canonical_uuid_form ''1C1F8B63-4D2C-4A7F-8B62-7A3E2D1F9B02'' \<and>
   Delete example_store3 ''1C1F8B63-4D2C-4A7F-8B62-7A3E2D1F9B02''
     = (Some (NotFoundError ''1C1F8B63-4D2C-4A7F-8B62-7A3E2D1F9B02''), example_store3) \<and>
   canonical_uuid_form ''1c1f8b63-4d2c-4a7f-8b62-7a3e2d1f9b02'' \<and>
   ''1c1f8b63-4d2c-4a7f-8b62-7a3e2d1f9b02'' \<in> ID ` set (db example_store3) \<and>
   fst (Delete example_store3 ''1c1f8b63-4d2c-4a7f-8b62-7a3e2d1f9b02'') = None \<and>
   ''1c1f8b63-4d2c-4a7f-8b62-7a3e2d1f9b02''
     \<notin> ID ` set (db (snd (Delete example_store3 ''1c1f8b63-4d2c-4a7f-8b62-7a3e2d1f9b02''))) \<and>
   (case Search (snd (Delete example_store3 ''1c1f8b63-4d2c-4a7f-8b62-7a3e2d1f9b02'')) ''coffee'' 5 0.5
    of Inr results \<Rightarrow> map (\<lambda>r. ID (Entry r)) results | Inl err \<Rightarrow> [])
   = [''0b0e7a52-3c1b-4f6e-9a51-6f2d1c0e8a01'', ''2d2a9c74-5e3d-4b8a-9c73-8b4f3e2a0c03'']"
proof -
  have absent: "''1C1F8B63-4D2C-4A7F-8B62-7A3E2D1F9B02'' \<notin> ID ` set (db example_store3)"
    by (simp add: example_store3_db)
  have present: "''1c1f8b63-4d2c-4a7f-8b62-7a3e2d1f9b02'' \<in> ID ` set (db example_store3)"
    by (simp add: example_store3_db)
  have l: "later ''1c1f8b63-4d2c-4a7f-8b62-7a3e2d1f9b02''
             (snd (Delete example_store3 ''1c1f8b63-4d2c-4a7f-8b62-7a3e2d1f9b02''))
             (snd (Delete example_store3 ''1c1f8b63-4d2c-4a7f-8b62-7a3e2d1f9b02''))"
    by (rule later.now)
  from Delete_contract [of "''not-a-uuid''" example_store3] uuid_examples(1)
  have 1: "Delete example_store3 ''not-a-uuid'' = (Some (ValidationError ''not-a-uuid''), example_store3)"
    by blast
  from Delete_contract [of "''1C1F8B63-4D2C-4A7F-8B62-7A3E2D1F9B02''" example_store3]
    uuid_examples(2) absent
  have 2: "Delete example_store3 ''1C1F8B63-4D2C-4A7F-8B62-7A3E2D1F9B02''
     = (Some (NotFoundError ''1C1F8B63-4D2C-4A7F-8B62-7A3E2D1F9B02''), example_store3)"
    by blast
  from Delete_contract [of "''1c1f8b63-4d2c-4a7f-8b62-7a3e2d1f9b02''" example_store3]
    uuid_examples(3) present l
  have 3: "fst (Delete example_store3 ''1c1f8b63-4d2c-4a7f-8b62-7a3e2d1f9b02'') = None"
    and 4: "''1c1f8b63-4d2c-4a7f-8b62-7a3e2d1f9b02''
     \<notin> ID ` set (db (snd (Delete example_store3 ''1c1f8b63-4d2c-4a7f-8b62-7a3e2d1f9b02'')))"
    by blast+
  have 5: "(case Search (snd (Delete example_store3 ''1c1f8b63-4d2c-4a7f-8b62-7a3e2d1f9b02'')) ''coffee'' 5 0.5
    of Inr results \<Rightarrow> map (\<lambda>r. ID (Entry r)) results | Inl err \<Rightarrow> [])
   = [''0b0e7a52-3c1b-4f6e-9a51-6f2d1c0e8a01'', ''2d2a9c74-5e3d-4b8a-9c73-8b4f3e2a0c03'']"
    unfolding example_search_after_delete by simp
  from uuid_examples present 1 2 3 4 5 show ?thesis
    by blast
qed

end
